theory Spec2Isabelle
  imports Complex_Main "HOL-Library.AList"
begin

section \<open>Terrain obstruction model (src/terrain.py)\<close>

text \<open>
  Python floats are modelled as \<^typ>\<open>real\<close>. The arithmetic of the interpolation is
  exact in the model; infinities and NaN are outside it. Rounding is modelled where the
  normalisation of an azimuth depends on it, in the remainder \<open>x % m\<close>. The exceptions
  the terrain code can raise are values of \<open>exn\<close>.
\<close>

datatype exn = IndexError | KeyError | ZeroDivisionError

text \<open>
  Rounding of a real number to the nearest double, ties to the even neighbour: the
  binade of \<open>x\<close> gives the unit in the last place, 52 binary digits below the leading
  one. Subnormal results and overflow do not occur where the rounding is used below.
\<close>

definition round_half_even :: "real \<Rightarrow> int" where
  "round_half_even x =
     (let f = \<lfloor>x\<rfloor>; d = x - of_int f
      in if d < 1 / 2 then f else if 1 / 2 < d then f + 1 else if even f then f else f + 1)"

definition float_round :: "real \<Rightarrow> real" where
  "float_round x =
     (if x = 0 then 0
      else (let e = \<lfloor>log 2 \<bar>x\<bar>\<rfloor>; ulp = 2 powr (of_int e - 52)
            in of_int (round_half_even (x / ulp)) * ulp))"

text \<open>
  C's \<open>fmod\<close>: the remainder of the division truncated towards zero. It has the sign of
  \<open>x\<close> and is computed without rounding.
\<close>

definition c_fmod :: "real \<Rightarrow> real \<Rightarrow> real" where
  "c_fmod x y = (let t = x / y in x - y * of_int (if 0 \<le> t then \<lfloor>t\<rfloor> else \<lceil>t\<rceil>))"

text \<open>
  Python's \<open>x % m\<close> on floats, for a modulus other than zero (the code always divides by
  360): \<open>mod = fmod(x, m)\<close>; a remainder other than zero whose sign differs from that of
  \<open>m\<close> is replaced by \<open>mod + m\<close>, a floating-point addition, which rounds. For a query
  that is negative and tiny the sum \<open>mod + 360\<close> rounds to 360 itself.
\<close>

definition py_mod :: "real \<Rightarrow> real \<Rightarrow> real" where
  "py_mod x m =
     (let r = c_fmod x m
      in if r \<noteq> 0 then (if (m < 0) \<noteq> (r < 0) then float_round (r + m) else r) else 0)"

text \<open>
  \<open>self.elevations\<close> is a \<open>Dict[float, float]\<close>. It is modelled as the list of its
  items in insertion order; \<open>d[k] = v\<close> is \<^const>\<open>AList.update\<close>, which overwrites the
  value of a key already present and appends a new key, as Python does. Every theorem
  below holds for an arbitrary list of items, in particular for those with distinct keys
  (the dictionaries).
\<close>

record TerrainProfile =
  elevations :: "(real \<times> real) list"
  reference_elevation :: real

definition init_profile :: TerrainProfile where
  "init_profile = \<lparr>elevations = [], reference_elevation = 0\<rparr>"

text \<open>The optional \<open>distance\<close> argument of \<open>add_elevation_point\<close> is never used.\<close>

definition add_elevation_point :: "TerrainProfile \<Rightarrow> real \<Rightarrow> real \<Rightarrow> TerrainProfile" where
  "add_elevation_point p azimuth elevation_angle =
     (let azimuth' = py_mod azimuth 360
      in p\<lparr>elevations := AList.update azimuth' elevation_angle (elevations p)\<rparr>)"

text \<open>
  \<open>load_from_dict\<close> builds a new dictionary by the comprehension
  \<open>{float(k): float(v) for k, v in data.items()}\<close>: the items of \<open>data\<close> are stored in
  iteration order, a later item overwriting an earlier one with an equal key. \<open>data\<close> is
  given as the list of its items after the conversion to float.
\<close>

definition dict_comprehension :: "(real \<times> real) list \<Rightarrow> (real \<times> real) list" where
  "dict_comprehension items = fold (\<lambda>(k, v) d. AList.update k v d) items []"

definition load_from_dict :: "TerrainProfile \<Rightarrow> (real \<times> real) list \<Rightarrow> real \<Rightarrow> TerrainProfile" where
  "load_from_dict p data ref_elev =
     p\<lparr>elevations := dict_comprehension data, reference_elevation := ref_elev\<rparr>"

text \<open>
  The parsed JSON document of \<open>load_from_file\<close>: both entries are optional, and
  \<open>data.get\<close> supplies \<open>{}\<close> and \<open>0\<close> for a missing one.
\<close>

record terrain_json =
  json_elevations :: "(real \<times> real) list option"
  json_reference_elevation :: "real option"

definition load_from_file :: "TerrainProfile \<Rightarrow> terrain_json \<Rightarrow> TerrainProfile" where
  "load_from_file p data =
     load_from_dict p
       (case json_elevations data of None \<Rightarrow> [] | Some d \<Rightarrow> d)
       (case json_reference_elevation data of None \<Rightarrow> 0 | Some r \<Rightarrow> r)"

text \<open>Raising operations: \<open>d[k]\<close>, \<open>xs[i]\<close> (negative indices count from the end), \<open>a / b\<close>.\<close>

definition dict_get :: "(real \<times> real) list \<Rightarrow> real \<Rightarrow> exn + real" where
  "dict_get d k = (case map_of d k of None \<Rightarrow> Inl KeyError | Some v \<Rightarrow> Inr v)"

definition list_get :: "real list \<Rightarrow> int \<Rightarrow> exn + real" where
  "list_get xs i =
     (let n = int (length xs); j = (if i < 0 then i + n else i)
      in if j < 0 \<or> n \<le> j then Inl IndexError else Inr (xs ! nat j))"

definition float_div :: "real \<Rightarrow> real \<Rightarrow> exn + real" where
  "float_div a b = (if b = 0 then Inl ZeroDivisionError else Inr (a / b))"

definition bind :: "exn + 'a \<Rightarrow> ('a \<Rightarrow> exn + 'b) \<Rightarrow> exn + 'b" where
  "bind r f = (case r of Inl e \<Rightarrow> Inl e | Inr x \<Rightarrow> f x)"

text \<open>
  The loop \<open>for i, az in enumerate(azimuths): if az > azimuth: idx = i; break\<close>;
  \<open>None\<close> when it runs to the end.
\<close>

fun find_idx :: "real \<Rightarrow> nat \<Rightarrow> real list \<Rightarrow> nat option" where
  "find_idx azimuth i [] = None"
| "find_idx azimuth i (az # rest) =
     (if az > azimuth then Some i else find_idx azimuth (Suc i) rest)"

definition get_obstruction_angle :: "TerrainProfile \<Rightarrow> real \<Rightarrow> exn + real" where
  "get_obstruction_angle p azimuth0 =
     (let azimuth = py_mod azimuth0 360 in
      case map_of (elevations p) azimuth of
        Some el \<Rightarrow> Inr el
      | None \<Rightarrow>
          (let azimuths = sort (map fst (elevations p)) in
           case find_idx azimuth 0 azimuths of
             None \<Rightarrow>
               bind (list_get azimuths (- 1)) (\<lambda>az1.
               bind (list_get azimuths 0) (\<lambda>az2.
               bind (dict_get (elevations p) az1) (\<lambda>el1.
               bind (dict_get (elevations p) az2) (\<lambda>el2.
               bind (float_div (azimuth - az1) (360 + az2 - az1)) (\<lambda>frac.
               Inr (el1 + frac * (el2 - el1)))))))
           | Some idx \<Rightarrow>
               if idx = 0 then
                 bind (list_get azimuths 0) (\<lambda>az0. dict_get (elevations p) az0)
               else
                 bind (list_get azimuths (int idx - 1)) (\<lambda>az1.
                 bind (list_get azimuths (int idx)) (\<lambda>az2.
                 bind (dict_get (elevations p) az1) (\<lambda>el1.
                 bind (dict_get (elevations p) az2) (\<lambda>el2.
                 bind (float_div (azimuth - az1) (az2 - az1)) (\<lambda>frac.
                 Inr (el1 + frac * (el2 - el1)))))))))"

definition is_sun_blocked :: "TerrainProfile \<Rightarrow> real \<Rightarrow> real \<Rightarrow> exn + bool" where
  "is_sun_blocked p sun_altitude sun_azimuth =
     bind (get_obstruction_angle p sun_azimuth) (\<lambda>obstruction_angle.
     Inr (sun_altitude \<le> obstruction_angle))"

section \<open>Solar timing (src/solar.py)\<close>

text \<open>
  A naive UTC \<open>datetime\<close> is modelled as an \<^typ>\<open>int\<close>: the microseconds elapsed since
  the midnight that starts some fixed day, so that a \<open>timedelta\<close> is an \<^typ>\<open>int\<close> of
  microseconds too. The bounds of Python's datetime range (years 1 to 9999) are outside
  the model.
\<close>

abbreviation second_us :: int where "second_us \<equiv> 1000000"
abbreviation minute_us :: int where "minute_us \<equiv> 60000000"
abbreviation hour_us :: int where "hour_us \<equiv> 3600000000"
abbreviation day_us :: int where "day_us \<equiv> 86400000000"

text \<open>\<open>dt.replace(hour=h, minute=0, second=0, microsecond=0)\<close>\<close>

definition replace_hour :: "int \<Rightarrow> int \<Rightarrow> int" where
  "replace_hour dt h = dt - dt mod day_us + h * hour_us"

text \<open>\<open>dt.hour\<close>\<close>

definition hour_of :: "int \<Rightarrow> int" where
  "hour_of dt = (dt mod day_us) div hour_us"

text \<open>
  The calendar date of an instant, as a day number. The loop of \<open>find_sunset_time\<close>
  compares \<open>current_time.day == dt.day\<close>, the days of the month; the two instants
  compared there are less than a day apart, where equal days of the month and equal
  dates are the same thing.
\<close>

definition date_of :: "int \<Rightarrow> int" where
  "date_of dt = dt div day_us"

text \<open>\<open>td.days\<close> of a normalised timedelta: the floor of the quotient by one day.\<close>

definition timedelta_days :: "int \<Rightarrow> int" where
  "timedelta_days td = td div day_us"

text \<open>
  \<open>td / 2\<close>: Python divides the microseconds and rounds a half to the even
  neighbour.
\<close>

definition timedelta_half :: "int \<Rightarrow> int" where
  "timedelta_half td =
     (let q = td div 2; r = td mod 2
      in if r = 1 \<and> q mod 2 = 1 then q + 1 else q)"

text \<open>
  The position provider (astropy, bound to the calculator's location) is a parameter:
  a function from the instant to the pair of altitude and azimuth in degrees. The
  \<open>time\<close> entry of a position is the ISO string of the instant, read back by
  \<open>datetime.fromisoformat\<close>; the model keeps the instant itself.
\<close>

type_synonym SolarCalculator = "int \<Rightarrow> real \<times> real"

record SolarPosition =
  altitude :: real
  azimuth :: real
  time :: int

definition get_solar_position :: "SolarCalculator \<Rightarrow> int \<Rightarrow> SolarPosition" where
  "get_solar_position calc dt = \<lparr>altitude = fst (calc dt), azimuth = snd (calc dt), time = dt\<rparr>"

text \<open>
  Both binary searches are modelled at \<open>tolerance_seconds = 1\<close>, the default, which every
  call in the repository uses; \<open>(time_after - time_before).total_seconds() > 1\<close> is then a
  width of more than \<open>1000000\<close> microseconds.
\<close>

function binary_search_horizon_crossing :: "SolarCalculator \<Rightarrow> int \<Rightarrow> int \<Rightarrow> int" where
  "binary_search_horizon_crossing calc time_before time_after =
     (if time_after - time_before > 1 * second_us then
        (let mid_time = time_before + timedelta_half (time_after - time_before);
             alt = altitude (get_solar_position calc mid_time)
         in if alt > 0 then binary_search_horizon_crossing calc mid_time time_after
            else binary_search_horizon_crossing calc time_before mid_time)
      else time_after)"
  by pat_completeness auto
termination
proof (relation "measure (\<lambda>(calc, time_before, time_after). nat (time_after - time_before))",
    goal_cases)
  case 1
  show ?case by simp
next
  case (2 calc time_before time_after mid_time alt)
  have "0 < timedelta_half (time_after - time_before)
        \<and> timedelta_half (time_after - time_before) < time_after - time_before"
    using 2(1) unfolding timedelta_half_def Let_def by presburger
  with 2 show ?case by simp
next
  case (3 calc time_before time_after mid_time alt)
  have "0 < timedelta_half (time_after - time_before)
        \<and> timedelta_half (time_after - time_before) < time_after - time_before"
    using 3(1) unfolding timedelta_half_def Let_def by presburger
  with 3 show ?case by simp
qed

function binary_search_altitude_crossing :: "SolarCalculator \<Rightarrow> int \<Rightarrow> int \<Rightarrow> real \<Rightarrow> int" where
  "binary_search_altitude_crossing calc time_before time_after target_altitude =
     (if time_after - time_before > 1 * second_us then
        (let mid_time = time_before + timedelta_half (time_after - time_before);
             alt = altitude (get_solar_position calc mid_time)
         in if alt > target_altitude
            then binary_search_altitude_crossing calc mid_time time_after target_altitude
            else binary_search_altitude_crossing calc time_before mid_time target_altitude)
      else time_after)"
  by pat_completeness auto
termination
proof (relation "measure (\<lambda>(calc, time_before, time_after, target_altitude).
    nat (time_after - time_before))",
    goal_cases)
  case 1
  show ?case by simp
next
  case (2 calc time_before time_after target_altitude mid_time alt)
  have "0 < timedelta_half (time_after - time_before)
        \<and> timedelta_half (time_after - time_before) < time_after - time_before"
    using 2(1) unfolding timedelta_half_def Let_def by presburger
  with 2 show ?case by simp
next
  case (3 calc time_before time_after target_altitude mid_time alt)
  have "0 < timedelta_half (time_after - time_before)
        \<and> timedelta_half (time_after - time_before) < time_after - time_before"
    using 3(1) unfolding timedelta_half_def Let_def by presburger
  with 3 show ?case by simp
qed

text \<open>
  \<open>find_sunset_time\<close> at \<open>step_minutes = 1\<close>, its default. \<open>sunset_scan\<close> is the
  \<open>while\<close> loop: its condition, the step, the test for the horizon crossing, and the
  \<open>break\<close> at 23:00 that leads to \<open>return None\<close>.
\<close>

function sunset_scan :: "SolarCalculator \<Rightarrow> int \<Rightarrow> int \<Rightarrow> real \<Rightarrow> int option" where
  "sunset_scan calc dt current_time prev_altitude =
     (if date_of current_time = date_of dt then
        (let current_time' = current_time + 1 * minute_us;
             current_altitude = altitude (get_solar_position calc current_time')
         in if prev_altitude > 0 \<and> current_altitude \<le> 0 then
              Some (binary_search_horizon_crossing calc (current_time' - 1 * minute_us) current_time')
            else if hour_of current_time' \<ge> 23 then None
            else sunset_scan calc dt current_time' current_altitude)
      else None)"
  by pat_completeness auto
termination
proof (relation "measure (\<lambda>(calc, dt, current_time, prev_altitude).
    nat ((date_of dt + 1) * day_us - current_time))", goal_cases)
  case 1
  show ?case by simp
next
  case (2 calc dt current_time prev_altitude current_time' current_altitude)
  have "current_time = current_time div day_us * day_us + current_time mod day_us"
    by simp
  moreover have "current_time mod day_us < day_us"
    by simp
  moreover have "(current_time div day_us + 1) * day_us = current_time div day_us * day_us + day_us"
    by (simp only: distrib_right mult_1)
  ultimately have "current_time < (date_of current_time + 1) * day_us"
    unfolding date_of_def by linarith
  with 2 show ?case by simp
qed

definition find_sunset_time :: "SolarCalculator \<Rightarrow> int \<Rightarrow> int option" where
  "find_sunset_time calc dt =
     (let search_start = replace_hour dt 12;
          current_time = search_start;
          prev_altitude = altitude (get_solar_position calc current_time)
      in sunset_scan calc dt current_time prev_altitude)"

text \<open>
  \<open>altitude_scan\<close> is the \<open>while True\<close> loop of \<open>_find_altitude_crossing\<close>, with
  \<open>step\<close> recomputed from \<open>search_forward\<close>. The variable \<open>prev_altitude\<close> of the source
  is assigned in the loop and never read; it is left out.
\<close>

function altitude_scan ::
  "SolarCalculator \<Rightarrow> int \<Rightarrow> real \<Rightarrow> bool \<Rightarrow> int \<Rightarrow> real \<Rightarrow> int option" where
  "altitude_scan calc dt target_altitude search_forward current_time prev_diff =
     (let step = (if search_forward then 1 else - 1);
          current_time' = current_time + step * hour_us;
          current_diff = altitude (get_solar_position calc current_time') - target_altitude
      in if prev_diff * current_diff \<le> 0 then
           Some (binary_search_altitude_crossing calc
                   (current_time' - step * hour_us) current_time' target_altitude)
         else if \<bar>timedelta_days (current_time' - dt)\<bar> > 1 then None
         else altitude_scan calc dt target_altitude search_forward current_time' current_diff)"
  by pat_completeness auto
termination
proof (relation "measure (\<lambda>(calc, dt, target_altitude, search_forward, current_time, prev_diff).
    if search_forward then nat (dt + 2 * day_us - current_time)
    else nat (current_time - dt + day_us + 1))", goal_cases)
  case 1
  show ?case by simp
next
  case (2 calc dt target_altitude search_forward current_time prev_diff step current_time'
      current_diff)
  define x where "x = current_time' - dt"
  have e: "x = x div day_us * day_us + x mod day_us"
    by simp
  have r: "0 \<le> x mod day_us" "x mod day_us < day_us"
    by simp_all
  from 2 have q: "- 1 \<le> x div day_us" "x div day_us \<le> 1"
    by (simp_all add: timedelta_days_def x_def)
  from e r q have "- day_us \<le> x" "x < 2 * day_us"
    by linarith+
  with 2 show ?case
    by (simp add: x_def split: if_splits)
qed

definition find_altitude_crossing :: "SolarCalculator \<Rightarrow> int \<Rightarrow> real \<Rightarrow> bool \<Rightarrow> int option" where
  "find_altitude_crossing calc dt target_altitude search_forward =
     (let current_time = replace_hour dt 12;
          prev_altitude = altitude (get_solar_position calc current_time);
          prev_diff = prev_altitude - target_altitude
      in altitude_scan calc dt target_altitude search_forward current_time prev_diff)"

record twilight_times =
  civil_dusk :: "int option"
  civil_dawn :: "int option"

definition get_civil_twilight_times :: "SolarCalculator \<Rightarrow> int \<Rightarrow> twilight_times" where
  "get_civil_twilight_times calc dt =
     \<lparr>civil_dusk = find_altitude_crossing calc dt (- 6) True,
      civil_dawn = find_altitude_crossing calc (dt - 1 * day_us) (- 6) False\<rparr>"

section \<open>The daily prediction (src/main.py)\<close>

text \<open>
  The result dictionary of \<open>predict_sunlight_loss\<close>, without the entries that echo the
  arguments (location, date, timezone). A time entry holds the instant whose ISO string
  the source stores.
\<close>

record prediction =
  has_sunlight :: bool
  first_direct_sunlight :: "int option"
  sun_altitude_at_rise :: "real option"
  sun_azimuth_at_rise :: "real option"
  last_direct_sunlight :: "int option"
  sun_altitude_at_loss :: "real option"
  sun_azimuth_at_loss :: "real option"
  terrain_obstruction :: bool

text \<open>
  \<open>sweep\<close> is the loop over the minutes of the day; \<open>use_terrain\<close> is the truth value
  of \<open>terrain_file\<close>, tested in each iteration. An exception of \<open>is_sun_blocked\<close> ends the
  loop, as nothing catches it.
\<close>

function sweep ::
  "SolarCalculator \<Rightarrow> TerrainProfile \<Rightarrow> bool \<Rightarrow> int \<Rightarrow> int \<Rightarrow> SolarPosition list
     \<Rightarrow> exn + SolarPosition list" where
  "sweep calc terrain use_terrain current_time end_time solar_positions =
     (if current_time < end_time then
        (let pos = get_solar_position calc current_time in
         if use_terrain then
           (case is_sun_blocked terrain (altitude pos) (azimuth pos) of
              Inl e \<Rightarrow> Inl e
            | Inr blocked \<Rightarrow>
                sweep calc terrain use_terrain (current_time + 1 * minute_us) end_time
                  (if \<not> blocked then solar_positions @ [pos] else solar_positions))
         else
           sweep calc terrain use_terrain (current_time + 1 * minute_us) end_time
             (if altitude pos > 0 then solar_positions @ [pos] else solar_positions))
      else Inr solar_positions)"
  by pat_completeness auto
termination
  by (relation "measure (\<lambda>(calc, terrain, use_terrain, current_time, end_time, solar_positions).
                   nat (end_time - current_time))") auto

text \<open>
  \<open>terrain_file\<close> is \<open>None\<close> or the parsed content of the file that a non-empty path
  names (so that its truth value and \<open>terrain_file is not None\<close> agree); \<open>date\<close> is given
  (the source takes the current time when it is \<open>None\<close>).
\<close>

definition predict_sunlight_loss ::
  "SolarCalculator \<Rightarrow> int \<Rightarrow> terrain_json option \<Rightarrow> exn + prediction" where
  "predict_sunlight_loss calc date terrain_file =
     (let terrain = (case terrain_file of None \<Rightarrow> init_profile
                     | Some data \<Rightarrow> load_from_file init_profile data);
          current_time = replace_hour date 0;
          end_time = current_time + 24 * hour_us
      in case sweep calc terrain (terrain_file \<noteq> None) current_time end_time [] of
           Inl e \<Rightarrow> Inl e
         | Inr solar_positions \<Rightarrow>
             Inr \<lparr>has_sunlight = (length solar_positions > 0),
                  first_direct_sunlight =
                    (if solar_positions \<noteq> [] then Some (time (hd solar_positions)) else None),
                  sun_altitude_at_rise =
                    (if solar_positions \<noteq> [] then Some (altitude (hd solar_positions)) else None),
                  sun_azimuth_at_rise =
                    (if solar_positions \<noteq> [] then Some (azimuth (hd solar_positions)) else None),
                  last_direct_sunlight =
                    (if solar_positions \<noteq> [] then Some (time (last solar_positions)) else None),
                  sun_altitude_at_loss =
                    (if solar_positions \<noteq> [] then Some (altitude (last solar_positions)) else None),
                  sun_azimuth_at_loss =
                    (if solar_positions \<noteq> [] then Some (azimuth (last solar_positions)) else None),
                  terrain_obstruction = (terrain_file \<noteq> None)\<rparr>)"

text \<open>
  The duration of the sunlight window as tests/test\_integration.py computes it: the last
  instant of direct sunlight minus the first, in microseconds; there is none when the
  time entries are \<open>None\<close>.
\<close>

definition window_duration :: "prediction \<Rightarrow> int option" where
  "window_duration result =
     (case (first_direct_sunlight result, last_direct_sunlight result) of
        (Some sunrise, Some sunset) \<Rightarrow> Some (sunset - sunrise)
      | _ \<Rightarrow> None)"

text \<open>
  The loops are unconditional recursive equations; they are unfolded by hand in the
  proofs below.
\<close>

declare binary_search_horizon_crossing.simps [simp del]
declare binary_search_altitude_crossing.simps [simp del]
declare sunset_scan.simps [simp del]
declare altitude_scan.simps [simp del]
declare sweep.simps [simp del]

text \<open>Ranges with numeral bounds stay symbolic: a day has 1440 minutes.\<close>

declare upt_rec_numeral [simp del]

section \<open>Synthetic suns\<close>

text \<open>
  Position providers used as concrete inputs below. Each gives the altitude and the
  azimuth as a function of the instant.
\<close>

text \<open>The sun stays 10 degrees above the horizon (polar day).\<close>

definition polar_day_sun :: SolarCalculator where
  "polar_day_sun t = (10, 180)"

text \<open>The sun stays 20 degrees below the horizon (polar night).\<close>

definition polar_night_sun :: SolarCalculator where
  "polar_night_sun t = (- 20, 0)"

text \<open>The sun is exactly on the horizon until 12:00 and one degree below it afterwards.\<close>

definition grazing_sun :: SolarCalculator where
  "grazing_sun t = (if t mod day_us \<le> 12 * hour_us then 0 else - 1, 180)"

text \<open>The sun is 5 degrees below the horizon until 13:00 and 5 degrees above it afterwards.\<close>

definition rising_sun :: SolarCalculator where
  "rising_sun t = (if t mod day_us < 13 * hour_us then - 5 else 5, 90)"

text \<open>The sun is 10 degrees up until 23:30 and 10 degrees down from then on.\<close>

definition late_sun :: SolarCalculator where
  "late_sun t = (if t mod day_us < 23 * hour_us + 30 * minute_us then 10 else - 10, 270)"

text \<open>The sun is 10 degrees up until 16:00 and 10 degrees down from then on.\<close>

definition falling_sun :: SolarCalculator where
  "falling_sun t = (if t mod day_us < 16 * hour_us then 10 else - 10, 225)"

text \<open>The sun is 10 degrees up from 06:00 to 18:00 and 5 degrees down otherwise.\<close>

definition half_day_sun :: SolarCalculator where
  "half_day_sun t =
     (if 6 * hour_us \<le> t mod day_us \<and> t mod day_us \<le> 18 * hour_us then 10 else - 5, 180)"

text \<open>
  The altitude rises linearly, one degree per hour, and is exactly -6 degrees at 11:30
  of day 0 (the instant \<open>41400000000\<close>): an altitude with a known analytic crossing of
  the civil-twilight threshold.
\<close>

definition dawn_sun :: SolarCalculator where
  "dawn_sun t = (real_of_int (t - 41400000000) / 3600000000 - 6, 90)"

section \<open>Properties of the terrain model\<close>

subsection \<open>Normalisation of azimuths\<close>

lemma py_mod_nonneg: "0 \<le> x \<Longrightarrow> 0 < m \<Longrightarrow> py_mod x m = x - m * of_int \<lfloor>x / m\<rfloor>"
proof -
  assume x: "0 \<le> x" and m: "0 < m"
  then have r: "c_fmod x m = x - m * of_int \<lfloor>x / m\<rfloor>"
    by (simp add: c_fmod_def)
  have "0 \<le> x - m * of_int \<lfloor>x / m\<rfloor>"
    using floor_divide_lower [of m x] m by (simp add: algebra_simps)
  then show ?thesis
    using m by (simp add: py_mod_def r Let_def)
qed

lemma py_mod_id: "0 \<le> x \<Longrightarrow> x < m \<Longrightarrow> py_mod x m = x"
proof -
  assume a: "0 \<le> x" "x < m"
  then have "\<lfloor>x / m\<rfloor> = 0" by (simp add: floor_eq_iff)
  with a show ?thesis by (simp add: py_mod_nonneg)
qed

lemma py_mod_nonneg_range: "0 \<le> x \<Longrightarrow> 0 < m \<Longrightarrow> 0 \<le> py_mod x m \<and> py_mod x m < m"
  using floor_divide_lower [of m x] floor_divide_upper [of m x]
  by (simp add: py_mod_nonneg algebra_simps)

lemma float_round_binade8:
  assumes "256 \<le> x" "x < 512"
  shows "float_round x = of_int (round_half_even (x * 2 ^ 44)) / 2 ^ 44"
proof -
  have e: "\<lfloor>log 2 \<bar>x\<bar>\<rfloor> = 8"
    using assms floor_log_eq_powr_iff [of "\<bar>x\<bar>" 2 8] by simp
  have u: "2 powr (of_int 8 - 52) = (1 :: real) / 2 ^ 44"
    by (simp add: powr_minus_divide)
  show ?thesis
    using assms unfolding float_round_def e Let_def u by simp
qed

lemma tiny_negative_reduces_to_360: "py_mod (- (1 / 2 ^ 70)) 360 = 360"
proof -
  have r: "c_fmod (- (1 / 2 ^ 70)) 360 = - (1 / 2 ^ 70)"
  proof -
    have "\<lceil>- (1 / 2 ^ 70) / (360 :: real)\<rceil> = 0"
      by (simp add: ceiling_eq_iff)
    then show ?thesis
      by (simp add: c_fmod_def Let_def)
  qed
  have f: "\<lfloor>(- (1 / 2 ^ 70) + 360) * 2 ^ 44 :: real\<rfloor> = 360 * 2 ^ 44 - 1"
    by (simp add: floor_eq_iff)
  have "round_half_even ((- (1 / 2 ^ 70) + 360) * 2 ^ 44) = 360 * 2 ^ 44"
    unfolding round_half_even_def Let_def f by simp
  then have "float_round (- (1 / 2 ^ 70) + 360) = 360"
    using float_round_binade8 [of "- (1 / 2 ^ 70) + 360"] by simp
  then show ?thesis
    unfolding py_mod_def Let_def r by simp
qed

subsection \<open>The lookup, case by case\<close>

text \<open>
  The lookup in terms of the query reduced modulo 360 and of the stored azimuths: an
  exact hit, a query below the smallest stored azimuth, a query above the largest, and a
  query strictly between two stored azimuths with no stored azimuth between them. The
  wrap-around case divides by \<open>360 + smallest - largest\<close>, which is positive when the
  stored azimuths span less than 360 degrees.
\<close>

lemma find_idx_None_iff:
  "find_idx a n xs = None \<longleftrightarrow> (\<forall>x\<in>set xs. x \<le> a)"
  by (induction xs arbitrary: n) (auto simp: not_less)

lemma find_idx_Some:
  "find_idx a n xs = Some m \<Longrightarrow>
     n \<le> m \<and> m - n < length xs \<and> a < xs ! (m - n) \<and> (\<forall>j<m - n. xs ! j \<le> a)"
proof (induction xs arbitrary: n)
  case Nil
  then show ?case by simp
next
  case (Cons x xs)
  show ?case
  proof (cases "a < x")
    case True
    with Cons.prems show ?thesis by simp
  next
    case False
    with Cons.prems have r: "find_idx a (Suc n) xs = Some m" by simp
    from Cons.IH [OF r] have ih: "Suc n \<le> m" "m - Suc n < length xs"
      "a < xs ! (m - Suc n)" "\<forall>j<m - Suc n. xs ! j \<le> a" by simp_all
    from ih(1) have e: "m - n = Suc (m - Suc n)" by simp
    have "\<forall>j<m - n. (x # xs) ! j \<le> a"
    proof (intro allI impI)
      fix j assume "j < m - n"
      then show "(x # xs) ! j \<le> a"
        using False ih(4) e by (cases j) auto
    qed
    with ih e show ?thesis by simp
  qed
qed

lemma sorted_hd_Min: "sorted xs \<Longrightarrow> xs \<noteq> [] \<Longrightarrow> hd xs = Min (set xs)"
  by (cases xs) (auto intro!: Min_eqI [symmetric])

lemma sorted_last_Max: "sorted xs \<Longrightarrow> xs \<noteq> [] \<Longrightarrow> last xs = Max (set xs)"
proof (induction xs)
  case Nil
  then show ?case by simp
next
  case (Cons x xs)
  show ?case
  proof (cases "xs = []")
    case True
    then show ?thesis by simp
  next
    case False
    with Cons have "last xs = Max (set xs)" by simp
    moreover have "x \<le> Max (set xs)"
      using Cons.prems False by (metis List.finite_set Max_ge last_in_set calculation sorted_simps(2))
    ultimately show ?thesis
      using False by (simp add: max_def)
  qed
qed

lemma list_get_nth: "i < length xs \<Longrightarrow> list_get xs (int i) = Inr (xs ! i)"
  by (simp add: list_get_def)

lemma list_get_pred: "i < length xs \<Longrightarrow> list_get xs (int (Suc i) - 1) = Inr (xs ! i)"
  by (simp add: list_get_def)

lemma list_get_last: "xs \<noteq> [] \<Longrightarrow> list_get xs (- 1) = Inr (last xs)"
  by (simp add: list_get_def last_conv_nth nat_diff_distrib' Let_def)

lemma list_get_first: "xs \<noteq> [] \<Longrightarrow> list_get xs 0 = Inr (hd xs)"
  by (simp add: list_get_def hd_conv_nth)

lemma dict_get_Some: "map_of d k = Some v \<Longrightarrow> dict_get d k = Inr v"
  by (simp add: dict_get_def)

lemma lookup_exact:
  assumes "map_of (elevations p) (py_mod q 360) = Some v"
  shows "get_obstruction_angle p q = Inr v"
  using assms by (simp add: get_obstruction_angle_def)

lemma lookup_stored:
  assumes "map_of (elevations p) az = Some v" and "0 \<le> az" and "az < 360"
  shows "get_obstruction_angle p az = Inr v"
  using assms by (simp add: lookup_exact py_mod_id)

lemma lookup_before:
  assumes ne: "elevations p \<noteq> []"
    and lt: "py_mod q 360 < Min (fst ` set (elevations p))"
    and v: "map_of (elevations p) (Min (fst ` set (elevations p))) = Some v"
  shows "get_obstruction_angle p q = Inr v"
proof -
  define ks where "ks = sort (map fst (elevations p))"
  have "length ks = length (elevations p)"
    by (simp add: ks_def)
  with ne have "ks \<noteq> []"
    by auto
  then have ks: "ks \<noteq> []" "sorted ks" "set ks = fst ` set (elevations p)"
    by (simp_all add: ks_def)
  then have hd: "hd ks = Min (fst ` set (elevations p))"
    using sorted_hd_Min [of ks] by simp
  have "py_mod q 360 \<notin> fst ` set (elevations p)"
    using lt by (metis List.finite_set Min_le finite_imageI not_less)
  then have none: "map_of (elevations p) (py_mod q 360) = None"
    by (simp add: map_of_eq_None_iff)
  have idx: "find_idx (py_mod q 360) 0 ks = Some 0"
    using ks(1) lt hd by (cases ks) auto
  show ?thesis
    using none idx v hd ks(1)
    by (simp add: get_obstruction_angle_def ks_def [symmetric] bind_def list_get_first
        dict_get_Some)
qed

lemma sorted_keys:
  assumes "elevations p \<noteq> []"
  shows "sort (map fst (elevations p)) \<noteq> []"
    and "sorted (sort (map fst (elevations p)))"
    and "set (sort (map fst (elevations p))) = fst ` set (elevations p)"
proof -
  have "length (sort (map fst (elevations p))) = length (elevations p)"
    by simp
  with assms show "sort (map fst (elevations p)) \<noteq> []"
    by (metis length_0_conv)
qed simp_all

lemma lookup_after:
  assumes ne: "elevations p \<noteq> []"
    and span: "Max (fst ` set (elevations p)) - Min (fst ` set (elevations p)) < 360"
    and gt: "Max (fst ` set (elevations p)) < py_mod q 360"
    and v1: "map_of (elevations p) (Max (fst ` set (elevations p))) = Some el1"
    and v2: "map_of (elevations p) (Min (fst ` set (elevations p))) = Some el2"
  shows "get_obstruction_angle p q =
     Inr (el1 + (py_mod q 360 - Max (fst ` set (elevations p)))
                / (360 + Min (fst ` set (elevations p)) - Max (fst ` set (elevations p)))
                * (el2 - el1))"
proof -
  define ks where "ks = sort (map fst (elevations p))"
  have ks: "ks \<noteq> []" "sorted ks" "set ks = fst ` set (elevations p)"
    unfolding ks_def using sorted_keys [OF ne] by simp_all
  have hd: "hd ks = Min (fst ` set (elevations p))"
    using sorted_hd_Min [of ks] ks by simp
  have last: "last ks = Max (fst ` set (elevations p))"
    using sorted_last_Max [of ks] ks by simp
  have le: "\<forall>x\<in>set ks. x \<le> py_mod q 360"
    using gt ks(3) by (metis List.finite_set Max_ge less_le_not_le order_trans linear)
  have "py_mod q 360 \<notin> fst ` set (elevations p)"
    using gt by (metis List.finite_set Max_ge finite_imageI not_less)
  then have none: "map_of (elevations p) (py_mod q 360) = None"
    by (simp add: map_of_eq_None_iff)
  have idx: "find_idx (py_mod q 360) 0 ks = None"
    using le by (simp add: find_idx_None_iff)
  from span have den: "360 + Min (fst ` set (elevations p)) - Max (fst ` set (elevations p)) \<noteq> 0"
    by linarith
  show ?thesis
    using none idx v1 v2 hd last ks(1) den
    by (simp add: get_obstruction_angle_def ks_def [symmetric] bind_def list_get_first
        list_get_last dict_get_Some float_div_def)
qed

lemma lookup_between:
  assumes v1: "map_of (elevations p) az1 = Some el1"
    and v2: "map_of (elevations p) az2 = Some el2"
    and lt1: "az1 < py_mod q 360" and lt2: "py_mod q 360 < az2"
    and gap: "\<forall>k\<in>fst ` set (elevations p). \<not> (az1 < k \<and> k < az2)"
  shows "get_obstruction_angle p q =
     Inr (el1 + (py_mod q 360 - az1) / (az2 - az1) * (el2 - el1))"
proof -
  define a where "a = py_mod q 360"
  define ks where "ks = sort (map fst (elevations p))"
  have k1: "az1 \<in> fst ` set (elevations p)" and k2: "az2 \<in> fst ` set (elevations p)"
    using map_of_SomeD [OF v1] map_of_SomeD [OF v2] by force+
  then have ne: "elevations p \<noteq> []"
    by auto
  have ks: "ks \<noteq> []" "sorted ks" "set ks = fst ` set (elevations p)"
    unfolding ks_def using sorted_keys [OF ne] by simp_all
  have "a \<notin> fst ` set (elevations p)"
    using gap lt1 lt2 unfolding a_def by blast
  then have none: "map_of (elevations p) a = None"
    by (simp add: map_of_eq_None_iff)
  have "\<not> (\<forall>x\<in>set ks. x \<le> a)"
    using k2 lt2 ks(3) unfolding a_def by (auto simp: not_le intro!: bexI [of _ az2])
  then obtain m where idx: "find_idx a 0 ks = Some m"
    using find_idx_None_iff [of a 0 ks] by (cases "find_idx a 0 ks") auto
  from find_idx_Some [OF idx] have m: "m < length ks" "a < ks ! m" "\<forall>j<m. ks ! j \<le> a"
    by simp_all
  obtain j1 where j1: "j1 < length ks" "ks ! j1 = az1"
    using k1 ks(3) by (metis in_set_conv_nth)
  obtain j2 where j2: "j2 < length ks" "ks ! j2 = az2"
    using k2 ks(3) by (metis in_set_conv_nth)
  have "j1 < m"
  proof (rule ccontr)
    assume "\<not> j1 < m"
    then have "ks ! m \<le> ks ! j1"
      using ks(2) j1(1) by (simp add: sorted_nth_mono)
    with m(2) j1(2) lt1 show False by (simp add: a_def)
  qed
  then obtain i where i: "m = Suc i"
    by (cases m) auto
  have up: "ks ! m = az2"
  proof -
    have "ks ! m \<in> fst ` set (elevations p)"
      using m(1) ks(3) by (metis nth_mem)
    with gap m(2) lt1 have "az2 \<le> ks ! m"
      unfolding a_def by (metis less_trans not_le)
    moreover have "\<not> j2 < m"
      using m(3) j2(2) lt2 unfolding a_def by (metis not_le)
    then have "ks ! m \<le> ks ! j2"
      using ks(2) j2(1) by (simp add: sorted_nth_mono)
    ultimately show ?thesis
      using j2(2) by simp
  qed
  have down: "ks ! i = az1"
  proof -
    have "ks ! i \<in> fst ` set (elevations p)"
      using m(1) i ks(3) by (metis Suc_lessD nth_mem)
    moreover have "ks ! i \<le> a"
      using m(3) i by simp
    ultimately have "ks ! i < a"
      using \<open>a \<notin> fst ` set (elevations p)\<close> by (metis less_le)
    then have "ks ! i < az2"
      using lt2 unfolding a_def by simp
    moreover have "ks ! j1 \<le> ks ! i"
      using ks(2) \<open>j1 < m\<close> i m(1) by (simp add: sorted_nth_mono)
    ultimately show ?thesis
      using gap \<open>ks ! i \<in> fst ` set (elevations p)\<close> j1(2) by (metis less_le)
  qed
  have den: "az2 - az1 \<noteq> 0"
    using lt1 lt2 by simp
  have g1: "list_get ks (int (Suc i) - 1) = Inr az1"
    using list_get_pred [of i ks] m(1) i down by simp
  have g2: "list_get ks (int (Suc i)) = Inr az2"
    using list_get_nth [of "Suc i" ks] m(1) i up by simp
  show ?thesis
    using none idx i g1 g2 v1 v2 den
    unfolding a_def
    by (simp add: get_obstruction_angle_def ks_def [symmetric] bind_def dict_get_Some
        float_div_def del: of_nat_Suc)
qed

text \<open>
  Adding a point at an azimuth that is not negative keeps every stored azimuth in
  \<open>[0, 360)\<close> and stores the angle as given, whatever its value.
\<close>

lemma add_elevation_point_normalises:
  assumes "\<forall>k\<in>fst ` set (elevations p). 0 \<le> k \<and> k < 360" and "0 \<le> az"
  shows "\<forall>k\<in>fst ` set (elevations (add_elevation_point p az el)). 0 \<le> k \<and> k < 360"
    and "map_of (elevations (add_elevation_point p az el)) (py_mod az 360) = Some el"
  using assms py_mod_nonneg_range [of az 360]
  by (auto simp: add_elevation_point_def Let_def dom_update update_conv')

text \<open>
  For a negative, tiny azimuth the key that \<open>add_elevation_point\<close> stores is 360: the
  remainder rounds up to the modulus.
\<close>

lemma add_elevation_point_tiny_negative:
  "map fst (elevations (add_elevation_point init_profile (- (1 / 2 ^ 70)) el)) = [360]"
  unfolding add_elevation_point_def Let_def tiny_negative_reduces_to_360
  by (simp add: init_profile_def)

subsection \<open>The empty profile\<close>

text \<open>
  Claim C1 says that \<open>is_sun_blocked\<close> on an empty profile returns false for every
  altitude and azimuth, without raising. The code does not: with no sample, no key equals
  the query, the loop over the sorted keys finds no index, and \<open>azimuths[-1]\<close> on the empty
  list raises IndexError. This holds for every altitude and azimuth and whatever the
  reference elevation of the profile is. The daily prediction meets the case when the
  terrain file has no \<open>elevations\<close> entry: the first sample of the sweep raises.
\<close>

theorem is_sun_blocked_empty_raises:
  "is_sun_blocked (p\<lparr>elevations := []\<rparr>) sun_altitude sun_azimuth = Inl IndexError
   \<and> predict_sunlight_loss calc date
        (Some \<lparr>json_elevations = None, json_reference_elevation = None\<rparr>) = Inl IndexError"
proof -
  have b: "is_sun_blocked (q\<lparr>elevations := []\<rparr>) a z = Inl IndexError" for q a z
    by (simp add: is_sun_blocked_def get_obstruction_angle_def bind_def list_get_def)
  have l: "load_from_file init_profile
      \<lparr>json_elevations = None, json_reference_elevation = None\<rparr> = init_profile\<lparr>elevations := []\<rparr>"
    by (simp add: load_from_file_def load_from_dict_def dict_comprehension_def init_profile_def)
  have "predict_sunlight_loss calc date
        (Some \<lparr>json_elevations = None, json_reference_elevation = None\<rparr>) = Inl IndexError"
    unfolding predict_sunlight_loss_def Let_def
    by (subst sweep.simps) (simp add: l b Let_def)
  with b show ?thesis by simp
qed

subsection \<open>Blocked means at or below the obstruction angle\<close>

text \<open>
  Claim C4: for a non-empty profile, \<open>is_sun_blocked\<close> returns true exactly when the
  lookup returns an obstruction angle and the altitude is at most that angle; it returns
  false exactly when the lookup returns an angle that the altitude exceeds; in particular
  an altitude equal to the obstruction angle is blocked.
\<close>

theorem is_sun_blocked_iff:
  assumes "elevations p \<noteq> []"
  shows "(is_sun_blocked p sun_altitude sun_azimuth = Inr True \<longleftrightarrow>
            (\<exists>angle. get_obstruction_angle p sun_azimuth = Inr angle \<and> sun_altitude \<le> angle))
       \<and> (is_sun_blocked p sun_altitude sun_azimuth = Inr False \<longleftrightarrow>
            (\<exists>angle. get_obstruction_angle p sun_azimuth = Inr angle \<and> angle < sun_altitude))
       \<and> (\<forall>angle. get_obstruction_angle p sun_azimuth = Inr angle \<longrightarrow>
            is_sun_blocked p angle sun_azimuth = Inr True)"
  by (auto simp: is_sun_blocked_def bind_def split: sum.splits)

theorem is_sun_blocked_iff_witness:
  "elevations (load_from_dict init_profile [(0, 10)] 0) \<noteq> []
   \<and> get_obstruction_angle (load_from_dict init_profile [(0, 10)] 0) 0 = Inr 10
   \<and> is_sun_blocked (load_from_dict init_profile [(0, 10)] 0) 10 0 = Inr True
   \<and> is_sun_blocked (load_from_dict init_profile [(0, 10)] 0) 15 0 = Inr False"
proof -
  let ?p = "load_from_dict init_profile [(0, 10)] 0"
  have ne: "elevations ?p \<noteq> []"
    by (simp add: load_from_dict_def dict_comprehension_def)
  have ang: "get_obstruction_angle ?p 0 = Inr 10"
    by (simp add: get_obstruction_angle_def load_from_dict_def dict_comprehension_def py_mod_nonneg)
  from is_sun_blocked_iff [OF ne, of 10 0] ang
  have t: "is_sun_blocked ?p 10 0 = Inr True" by simp
  from is_sun_blocked_iff [OF ne, of 15 0] ang
  have f: "is_sun_blocked ?p 15 0 = Inr False" by simp
  from ne ang t f show ?thesis by simp
qed

subsection \<open>Periodicity of the lookup\<close>

text \<open>
  Claim C6 says that the lookup at \<open>q\<close> and the lookup at \<open>q mod 360\<close> agree for every
  query. They do not when \<open>q\<close> is negative and tiny: for \<open>q = -2^-70\<close> the remainder of
  \<open>fmod\<close> is \<open>q\<close> itself and the addition \<open>q + 360\<close> rounds to 360, so \<open>q % 360\<close> is 360
  and not below it, while \<open>360 % 360\<close> is 0. For the profile \<open>{90: 5, 180: 7}\<close> the lookup
  at \<open>q\<close> works with 360: no stored azimuth is larger, and it interpolates from 180 around
  to 90, which gives \<open>7 + 180/270 * (5 - 7) = 17/3\<close>. The lookup at \<open>q % 360 = 360\<close> works
  with 0: this is below the first stored azimuth, and it returns 5.
\<close>

theorem lookup_not_periodic_at_tiny_negative:
  "py_mod (- (1 / 2 ^ 70)) 360 = 360
   \<and> get_obstruction_angle (load_from_dict init_profile [(90, 5), (180, 7)] 0)
        (- (1 / 2 ^ 70)) = Inr (17 / 3)
   \<and> get_obstruction_angle (load_from_dict init_profile [(90, 5), (180, 7)] 0)
        (py_mod (- (1 / 2 ^ 70)) 360) = Inr 5"
proof -
  have a: "get_obstruction_angle (load_from_dict init_profile [(90, 5), (180, 7)] 0)
        (- (1 / 2 ^ 70)) = Inr (17 / 3)"
    unfolding get_obstruction_angle_def tiny_negative_reduces_to_360
    by (simp add: load_from_dict_def dict_comprehension_def init_profile_def bind_def
        list_get_def dict_get_def float_div_def Let_def)
  have b: "get_obstruction_angle (load_from_dict init_profile [(90, 5), (180, 7)] 0)
        (py_mod (- (1 / 2 ^ 70)) 360) = Inr 5"
    unfolding tiny_negative_reduces_to_360
    by (simp add: get_obstruction_angle_def py_mod_nonneg load_from_dict_def
        dict_comprehension_def init_profile_def bind_def list_get_def dict_get_def Let_def)
  from a b show ?thesis
    by (simp only: tiny_negative_reduces_to_360 simp_thms)
qed

subsection \<open>A profile with one sample\<close>

text \<open>
  Claim C10: when the profile holds exactly one sample, the lookup returns that sample's
  value for every query, whether the normalised query equals the sample's azimuth (the
  exact hit), is below it (the branch \<open>idx == 0\<close>) or above it (the wrap-around branch,
  where both neighbours are the one sample and the divisor is 360).
\<close>

theorem single_sample_constant:
  assumes "elevations p = [(az, el)]"
  shows "get_obstruction_angle p q = Inr el"
  using assms
  by (simp add: get_obstruction_angle_def bind_def list_get_def dict_get_def float_div_def Let_def)

theorem single_sample_constant_witness:
  "get_obstruction_angle (add_elevation_point init_profile 45 10) 405 = Inr 10
   \<and> get_obstruction_angle (add_elevation_point init_profile 45 10) 20 = Inr 10
   \<and> get_obstruction_angle (add_elevation_point init_profile 45 10) 300 = Inr 10"
proof -
  have e: "elevations (add_elevation_point init_profile 45 10) = [(45, 10)]"
    by (simp add: add_elevation_point_def init_profile_def py_mod_nonneg)
  show ?thesis
    using single_sample_constant [OF e, of 405] single_sample_constant [OF e, of 20]
      single_sample_constant [OF e, of 300]
    by simp
qed

subsection \<open>Loading does not normalise\<close>

text \<open>
  Claim C7 says that every way of loading samples stores azimuth keys normalised into
  \<open>[0, 360)\<close>. \<open>add_elevation_point\<close> reduces the azimuth modulo 360, but
  \<open>load_from_dict\<close> (and \<open>load_from_file\<close>, which calls it) stores each key as given:
  loading the one item
  \<open>360 \<mapsto> 10\<close> leaves the key 360 in the profile, where adding the same point stores it
  under 0.
\<close>

theorem load_from_dict_keeps_raw_key:
  "map fst (elevations (load_from_dict init_profile [(360, 10)] 0)) = [360]
   \<and> map fst (elevations (load_from_file init_profile
        \<lparr>json_elevations = Some [(360, 10)], json_reference_elevation = None\<rparr>)) = [360]
   \<and> map fst (elevations (add_elevation_point init_profile 360 10)) = [0]"
  by (simp add: load_from_file_def load_from_dict_def dict_comprehension_def
      add_elevation_point_def init_profile_def py_mod_nonneg)

subsection \<open>A stored azimuth that the lookup misses\<close>

text \<open>
  Claim C5 says, among others, that a query at a stored sample azimuth returns the stored
  value exactly. For the profile loaded from \<open>{90: 5, 360: 10}\<close> the query 360 is
  normalised to 0, which is no key; the loop finds the key 90 at index 0 and the lookup
  returns the value stored there, 5, not the 10 stored at 360. The lookup itself behaves
  as the claim says on every profile whose stored azimuths lie in \<open>[0, 360)\<close> (the
  lemmas \<open>lookup_stored\<close>, \<open>lookup_between\<close>, \<open>lookup_before\<close> and \<open>lookup_after\<close>
  above); \<open>load_from_dict\<close> stores an azimuth outside that range as it is given.
\<close>

theorem stored_azimuth_missed:
  "map_of (elevations (load_from_dict init_profile [(90, 5), (360, 10)] 0)) 360 = Some 10
   \<and> get_obstruction_angle (load_from_dict init_profile [(90, 5), (360, 10)] 0) 360 = Inr 5"
  by (simp add: get_obstruction_angle_def load_from_dict_def dict_comprehension_def
      init_profile_def py_mod_nonneg bind_def list_get_def dict_get_def Let_def)

section \<open>Properties of the crossing searches and of the daily sweep\<close>

subsection \<open>Auxiliary facts\<close>

lemma all_nat_split: "(\<forall>k::nat. P k) \<longleftrightarrow> P 0 \<and> (\<forall>k. P (Suc k))"
  by (metis not0_implies_Suc)

lemma altitude_scan_None_iff:
  "prev_diff = fst (calc current_time) - target_altitude \<Longrightarrow>
   altitude_scan calc dt target_altitude search_forward current_time prev_diff = None \<longleftrightarrow>
   (\<forall>k. (\<forall>j<k. \<bar>timedelta_days (current_time + (if search_forward then 1 else - 1) * int (Suc j) * hour_us - dt)\<bar> \<le> 1) \<longrightarrow>
        0 < (fst (calc (current_time + (if search_forward then 1 else - 1) * int k * hour_us)) - target_altitude)
          * (fst (calc (current_time + (if search_forward then 1 else - 1) * int (Suc k) * hour_us)) - target_altitude))"
proof (induction calc dt target_altitude search_forward current_time prev_diff
    rule: altitude_scan.induct)
  case (1 calc dt target_altitude search_forward current_time prev_diff)
  define s :: int where "s = (if search_forward then 1 else - 1)"
  define c' where "c' = current_time + s * hour_us"
  define cd where "cd = fst (calc c') - target_altitude"
  define inb where "inb t \<longleftrightarrow> \<bar>timedelta_days (t - dt)\<bar> \<le> 1" for t
  define P where "P c k \<longleftrightarrow> 0 < (fst (calc (c + s * int k * hour_us)) - target_altitude)
          * (fst (calc (c + s * int (Suc k) * hour_us)) - target_altitude)" for c k
  define R where "R c \<longleftrightarrow> (\<forall>k. (\<forall>j<k. inb (c + s * int (Suc j) * hour_us)) \<longrightarrow> P c k)" for c
  have shift: "c' + s * int k * hour_us = current_time + s * int (Suc k) * hour_us" for k
    by (simp add: c'_def algebra_simps)
  have P0: "P current_time 0 \<longleftrightarrow> 0 < prev_diff * cd"
    using "1.prems" by (simp add: P_def cd_def c'_def)
  have PS: "P current_time (Suc k) = P c' k" for k
    unfolding P_def shift ..
  have split: "R current_time \<longleftrightarrow> P current_time 0 \<and> (inb c' \<longrightarrow> R c')"
  proof -
    have "R current_time \<longleftrightarrow> P current_time 0 \<and>
        (\<forall>k. (\<forall>j<Suc k. inb (current_time + s * int (Suc j) * hour_us)) \<longrightarrow> P current_time (Suc k))"
      unfolding R_def by (subst all_nat_split) simp
    also have "\<dots> \<longleftrightarrow> P current_time 0 \<and> (inb c' \<longrightarrow> R c')"
      unfolding R_def All_less_Suc2 PS shift [symmetric]
      by (auto simp: c'_def)
    finally show ?thesis .
  qed
  have unfold: "altitude_scan calc dt target_altitude search_forward current_time prev_diff =
      (if prev_diff * cd \<le> 0 then
         Some (binary_search_altitude_crossing calc (c' - s * hour_us) c' target_altitude)
       else if \<not> inb c' then None
       else altitude_scan calc dt target_altitude search_forward c' cd)"
    by (subst altitude_scan.simps)
      (simp add: Let_def s_def c'_def cd_def inb_def get_solar_position_def not_le)
  have goal: "altitude_scan calc dt target_altitude search_forward current_time prev_diff = None
      \<longleftrightarrow> R current_time"
  proof (cases "prev_diff * cd \<le> 0")
    case True
    then show ?thesis using unfold split P0 by simp
  next
    case False
    show ?thesis
    proof (cases "inb c'")
      case False
      with \<open>\<not> prev_diff * cd \<le> 0\<close> show ?thesis using unfold split P0 by simp
    next
      case True
      have "altitude_scan calc dt target_altitude search_forward c' cd = None \<longleftrightarrow> R c'"
        unfolding R_def P_def inb_def s_def
        using \<open>\<not> prev_diff * cd \<le> 0\<close> True
        by (intro "1.IH" [where x = s and xa = c' and xb = cd])
           (simp_all add: s_def c'_def cd_def inb_def get_solar_position_def)
      with \<open>\<not> prev_diff * cd \<le> 0\<close> True show ?thesis using unfold split P0 by simp
    qed
  qed
  then show ?case
    unfolding R_def P_def inb_def s_def .
qed

lemma sunset_scan_None_iff:
  "prev_altitude = fst (calc current_time) \<Longrightarrow>
   sunset_scan calc dt current_time prev_altitude = None \<longleftrightarrow>
   (\<forall>k. (\<forall>j<k. date_of (current_time + int j * minute_us) = date_of dt
              \<and> hour_of (current_time + int (Suc j) * minute_us) < 23)
        \<and> date_of (current_time + int k * minute_us) = date_of dt \<longrightarrow>
        \<not> (0 < fst (calc (current_time + int k * minute_us))
           \<and> fst (calc (current_time + int (Suc k) * minute_us)) \<le> 0))"
proof (induction calc dt current_time prev_altitude rule: sunset_scan.induct)
  case (1 calc dt current_time prev_altitude)
  define c' where "c' = current_time + minute_us"
  define ca where "ca = fst (calc c')"
  define C where "C c j \<longleftrightarrow> date_of (c + int j * minute_us) = date_of dt
      \<and> hour_of (c + int (Suc j) * minute_us) < 23" for c j
  define P where "P c k \<longleftrightarrow> \<not> (0 < fst (calc (c + int k * minute_us))
      \<and> fst (calc (c + int (Suc k) * minute_us)) \<le> 0)" for c k
  define R where "R c \<longleftrightarrow> (\<forall>k. (\<forall>j<k. C c j) \<and> date_of (c + int k * minute_us) = date_of dt
      \<longrightarrow> P c k)" for c
  have shift: "c' + int k * minute_us = current_time + int (Suc k) * minute_us" for k
    by (simp add: c'_def algebra_simps)
  have P0: "P current_time 0 \<longleftrightarrow> \<not> (0 < prev_altitude \<and> ca \<le> 0)"
    using "1.prems" by (simp add: P_def ca_def c'_def)
  have C0: "C current_time 0 \<longleftrightarrow> date_of current_time = date_of dt \<and> hour_of c' < 23"
    by (simp add: C_def c'_def)
  have PS: "P current_time (Suc k) = P c' k" for k
    unfolding P_def shift ..
  have CS: "C current_time (Suc k) = C c' k" for k
    unfolding C_def shift ..
  have split: "R current_time \<longleftrightarrow>
      (date_of current_time = date_of dt \<longrightarrow> P current_time 0 \<and> (hour_of c' < 23 \<longrightarrow> R c'))"
  proof -
    have "R current_time \<longleftrightarrow> (date_of current_time = date_of dt \<longrightarrow> P current_time 0) \<and>
        (\<forall>k. (\<forall>j<Suc k. C current_time j)
              \<and> date_of (current_time + int (Suc k) * minute_us) = date_of dt
              \<longrightarrow> P current_time (Suc k))"
      unfolding R_def by (subst all_nat_split) simp
    also have "\<dots> \<longleftrightarrow>
        (date_of current_time = date_of dt \<longrightarrow> P current_time 0 \<and> (hour_of c' < 23 \<longrightarrow> R c'))"
      unfolding R_def All_less_Suc2 PS CS C0 shift [symmetric]
      by auto
    finally show ?thesis .
  qed
  have unfold: "sunset_scan calc dt current_time prev_altitude =
      (if date_of current_time = date_of dt then
         (if prev_altitude > 0 \<and> ca \<le> 0 then
            Some (binary_search_horizon_crossing calc (c' - minute_us) c')
          else if hour_of c' \<ge> 23 then None
          else sunset_scan calc dt c' ca)
       else None)"
    by (subst sunset_scan.simps)
      (simp add: Let_def c'_def ca_def get_solar_position_def)
  have goal: "sunset_scan calc dt current_time prev_altitude = None \<longleftrightarrow> R current_time"
  proof (cases "date_of current_time = date_of dt")
    case False
    then show ?thesis using unfold split by simp
  next
    case d: True
    show ?thesis
    proof (cases "prev_altitude > 0 \<and> ca \<le> 0")
      case True
      then show ?thesis using d unfold split P0 by simp
    next
      case nd: False
      show ?thesis
      proof (cases "hour_of c' < 23")
        case False
        with d nd show ?thesis using unfold split P0 by simp
      next
        case True
        have "sunset_scan calc dt c' ca = None \<longleftrightarrow> R c'"
          unfolding R_def P_def C_def
          using d nd True
          by (intro "1.IH" [where x = c' and xa = ca])
             (simp_all add: c'_def ca_def get_solar_position_def)
        then have ih: "sunset_scan calc dt c' ca = None \<longleftrightarrow> R c'" .
        have u: "sunset_scan calc dt current_time prev_altitude = sunset_scan calc dt c' ca"
          using d nd True by (subst unfold) auto
        have r: "R current_time \<longleftrightarrow> R c'"
          using split d nd True P0 by blast
        show ?thesis
          by (simp only: u r ih)
      qed
    qed
  qed
  then show ?case
    unfolding R_def P_def C_def .
qed

lemma day_start_plus:
  "0 \<le> r \<Longrightarrow> r < day_us \<Longrightarrow>
   (dt - dt mod day_us + r) div day_us = dt div day_us \<and> (dt - dt mod day_us + r) mod day_us = r"
  by (simp add: minus_mod_eq_div_mult)

lemma hour_of_less:
  "hour_of t < h \<longleftrightarrow> t mod day_us < h * hour_us"
proof -
  define x where "x = t mod day_us"
  define q where "q = x div hour_us"
  define r where "r = x mod hour_us"
  have x: "x = q * hour_us + r" and r: "0 \<le> r" "r < hour_us"
    by (simp_all add: q_def r_def)
  have "q < h \<longleftrightarrow> q * hour_us + r < h * hour_us"
    using r by linarith
  then show ?thesis
    unfolding hour_of_def x_def [symmetric] q_def [symmetric] x [symmetric] .
qed

lemma find_altitude_crossing_None_iff:
  "find_altitude_crossing calc dt target_altitude search_forward = None \<longleftrightarrow>
   (\<forall>k. (\<forall>j<k. \<bar>timedelta_days (replace_hour dt 12
                + (if search_forward then 1 else - 1) * int (Suc j) * hour_us - dt)\<bar> \<le> 1) \<longrightarrow>
        0 < (fst (calc (replace_hour dt 12 + (if search_forward then 1 else - 1) * int k * hour_us))
               - target_altitude)
          * (fst (calc (replace_hour dt 12 + (if search_forward then 1 else - 1) * int (Suc k) * hour_us))
               - target_altitude))"
  unfolding find_altitude_crossing_def Let_def
  by (rule altitude_scan_None_iff) (simp add: get_solar_position_def)

lemma sunset_scan_window:
  "(\<forall>j<k. date_of (replace_hour dt 12 + int j * minute_us) = date_of dt
          \<and> hour_of (replace_hour dt 12 + int (Suc j) * minute_us) < 23)
    \<and> date_of (replace_hour dt 12 + int k * minute_us) = date_of dt
   \<longleftrightarrow> k < 660"
proof
  assume a: "(\<forall>j<k. date_of (replace_hour dt 12 + int j * minute_us) = date_of dt
          \<and> hour_of (replace_hour dt 12 + int (Suc j) * minute_us) < 23)
    \<and> date_of (replace_hour dt 12 + int k * minute_us) = date_of dt"
  show "k < 660"
  proof (rule ccontr)
    assume "\<not> k < 660"
    then have "659 < k" by simp
    with a have "hour_of (replace_hour dt 12 + int (Suc 659) * minute_us) < 23" by blast
    moreover have "(replace_hour dt 12 + int (Suc 659) * minute_us) mod day_us = 23 * hour_us"
      using day_start_plus [of "23 * hour_us" dt] by (simp add: replace_hour_def add.commute)
    ultimately show False by (simp add: hour_of_less)
  qed
next
  assume k: "k < 660"
  have d: "date_of (replace_hour dt 12 + int j * minute_us) = date_of dt
      \<and> (replace_hour dt 12 + int j * minute_us) mod day_us = 12 * hour_us + int j * minute_us"
    if "j \<le> 660" for j
    using that day_start_plus [of "12 * hour_us + int j * minute_us" dt]
    by (simp add: replace_hour_def date_of_def add.assoc)
  show "(\<forall>j<k. date_of (replace_hour dt 12 + int j * minute_us) = date_of dt
          \<and> hour_of (replace_hour dt 12 + int (Suc j) * minute_us) < 23)
    \<and> date_of (replace_hour dt 12 + int k * minute_us) = date_of dt"
  proof (intro conjI allI impI)
    fix j assume "j < k"
    with k show "date_of (replace_hour dt 12 + int j * minute_us) = date_of dt"
      using d [of j] by simp
    from \<open>j < k\<close> k have "Suc j \<le> 660" "Suc j < 660" by simp_all
    then show "hour_of (replace_hour dt 12 + int (Suc j) * minute_us) < 23"
      using d [of "Suc j"] by (simp add: hour_of_less)
  next
    show "date_of (replace_hour dt 12 + int k * minute_us) = date_of dt"
      using d [of k] k by simp
  qed
qed

lemma find_sunset_time_None_iff:
  "find_sunset_time calc dt = None \<longleftrightarrow>
   (\<forall>k<660. \<not> (0 < fst (calc (replace_hour dt 12 + int k * minute_us))
              \<and> fst (calc (replace_hour dt 12 + int (Suc k) * minute_us)) \<le> 0))"
proof -
  have "sunset_scan calc dt (replace_hour dt 12)
          (altitude (get_solar_position calc (replace_hour dt 12))) = None \<longleftrightarrow>
    (\<forall>k. (\<forall>j<k. date_of (replace_hour dt 12 + int j * minute_us) = date_of dt
              \<and> hour_of (replace_hour dt 12 + int (Suc j) * minute_us) < 23)
        \<and> date_of (replace_hour dt 12 + int k * minute_us) = date_of dt \<longrightarrow>
        \<not> (0 < fst (calc (replace_hour dt 12 + int k * minute_us))
           \<and> fst (calc (replace_hour dt 12 + int (Suc k) * minute_us)) \<le> 0))"
    by (rule sunset_scan_None_iff) (simp add: get_solar_position_def)
  then show ?thesis
    unfolding find_sunset_time_def Let_def sunset_scan_window by blast
qed

lemma sweep_no_terrain:
  "sweep calc terrain False current_time (current_time + int n * minute_us) solar_positions =
     Inr (solar_positions @ filter (\<lambda>pos. 0 < altitude pos)
            (map (\<lambda>k. get_solar_position calc (current_time + int k * minute_us)) [0..<n]))"
proof (induction n arbitrary: current_time solar_positions)
  case 0
  show ?case by (subst sweep.simps) simp
next
  case (Suc n)
  define pos where "pos = get_solar_position calc current_time"
  define acc where "acc = (if 0 < altitude pos then solar_positions @ [pos] else solar_positions)"
  have step: "sweep calc terrain False current_time (current_time + int (Suc n) * minute_us)
        solar_positions =
      sweep calc terrain False (current_time + minute_us)
        ((current_time + minute_us) + int n * minute_us) acc"
    by (subst sweep.simps) (simp add: Let_def acc_def pos_def algebra_simps)
  have "map (\<lambda>k. get_solar_position calc (current_time + int k * minute_us)) [0..<Suc n] =
      get_solar_position calc (current_time + int 0 * minute_us)
      # map (\<lambda>k. get_solar_position calc (current_time + int (Suc k) * minute_us)) [0..<n]"
    by (rule map_upt_Suc)
  also have "\<dots> = pos
      # map (\<lambda>k. get_solar_position calc ((current_time + minute_us) + int k * minute_us)) [0..<n]"
    by (simp add: pos_def algebra_simps)
  finally have lst: "map (\<lambda>k. get_solar_position calc (current_time + int k * minute_us)) [0..<Suc n]
      = pos # map (\<lambda>k. get_solar_position calc ((current_time + minute_us) + int k * minute_us)) [0..<n]" .
  show ?case
    unfolding step lst Suc.IH by (simp add: acc_def)
qed

lemma sweep_terrain:
  assumes "\<And>t. is_sun_blocked terrain (fst (calc t)) (snd (calc t)) = Inr (B t)"
  shows "sweep calc terrain True current_time (current_time + int n * minute_us) solar_positions =
     Inr (solar_positions @ filter (\<lambda>pos. \<not> B (time pos))
            (map (\<lambda>k. get_solar_position calc (current_time + int k * minute_us)) [0..<n]))"
proof (induction n arbitrary: current_time solar_positions)
  case 0
  show ?case by (subst sweep.simps) simp
next
  case (Suc n)
  define pos where "pos = get_solar_position calc current_time"
  define acc where "acc = (if \<not> B current_time then solar_positions @ [pos] else solar_positions)"
  have b: "is_sun_blocked terrain (altitude pos) (azimuth pos) = Inr (B current_time)"
    using assms [of current_time] by (simp add: pos_def get_solar_position_def)
  have step: "sweep calc terrain True current_time (current_time + int (Suc n) * minute_us)
        solar_positions =
      sweep calc terrain True (current_time + minute_us)
        ((current_time + minute_us) + int n * minute_us) acc"
    by (subst sweep.simps) (simp add: Let_def acc_def pos_def [symmetric] b algebra_simps)
  have "map (\<lambda>k. get_solar_position calc (current_time + int k * minute_us)) [0..<Suc n] =
      get_solar_position calc (current_time + int 0 * minute_us)
      # map (\<lambda>k. get_solar_position calc (current_time + int (Suc k) * minute_us)) [0..<n]"
    by (rule map_upt_Suc)
  also have "\<dots> = pos
      # map (\<lambda>k. get_solar_position calc ((current_time + minute_us) + int k * minute_us)) [0..<n]"
    by (simp add: pos_def algebra_simps)
  finally have lst: "map (\<lambda>k. get_solar_position calc (current_time + int k * minute_us)) [0..<Suc n]
      = pos # map (\<lambda>k. get_solar_position calc ((current_time + minute_us) + int k * minute_us)) [0..<n]" .
  have t: "time pos = current_time"
    by (simp add: pos_def get_solar_position_def)
  show ?case
    unfolding step lst Suc.IH by (simp add: acc_def t)
qed

lemma day_sweep_no_terrain:
  "sweep calc terrain False (replace_hour date 0) (replace_hour date 0 + day_us) [] =
     Inr (filter (\<lambda>pos. 0 < altitude pos)
            (map (\<lambda>k. get_solar_position calc (replace_hour date 0 + int k * minute_us)) [0..<1440]))"
  using sweep_no_terrain [of calc terrain "replace_hour date 0" 1440 "[]"] by simp

lemma day_sweep_terrain:
  assumes "\<And>t. is_sun_blocked terrain (fst (calc t)) (snd (calc t)) = Inr (B t)"
  shows "sweep calc terrain True (replace_hour date 0) (replace_hour date 0 + day_us) [] =
     Inr (filter (\<lambda>pos. \<not> B (time pos))
            (map (\<lambda>k. get_solar_position calc (replace_hour date 0 + int k * minute_us)) [0..<1440]))"
  using sweep_terrain [of terrain calc B "replace_hour date 0" 1440 "[]", OF assms] by simp

lemma filter_upt_interval:
  assumes "a \<le> b" "b < n"
  shows "filter (\<lambda>k. a \<le> k \<and> k \<le> b) [0..<n] = [a..<Suc b]"
proof -
  have "[0..<n] = [0..<a] @ [a..<n]"
    using upt_add_eq_append [of 0 a "n - a"] assms by simp
  moreover have "[a..<n] = [a..<Suc b] @ [Suc b..<n]"
    using upt_add_eq_append [of a "Suc b" "n - Suc b"] assms by simp
  ultimately have "[0..<n] = [0..<a] @ [a..<Suc b] @ [Suc b..<n]"
    by simp
  moreover have "filter (\<lambda>k. a \<le> k \<and> k \<le> b) [0..<a] = []"
    by (simp add: filter_empty_conv)
  moreover have "filter (\<lambda>k. a \<le> k \<and> k \<le> b) [Suc b..<n] = []"
    by (simp add: filter_empty_conv)
  moreover have "filter (\<lambda>k. a \<le> k \<and> k \<le> b) [a..<Suc b] = [a..<Suc b]"
    unfolding filter_id_conv by auto
  ultimately show ?thesis by simp
qed

lemma map_upt_ends:
  assumes "a < b"
  shows "map f [a..<b] \<noteq> []" "hd (map f [a..<b]) = f a" "last (map f [a..<b]) = f (b - 1)"
  using assms by (simp_all add: hd_map last_map)

lemma is_sun_blocked_single:
  "elevations p = [(az, el)] \<Longrightarrow> is_sun_blocked p sun_altitude sun_azimuth = Inr (sun_altitude \<le> el)"
  by (simp add: is_sun_blocked_def get_obstruction_angle_def bind_def list_get_def dict_get_def
      float_div_def Let_def)

lemma predict_no_terrain:
  assumes "ps = filter (\<lambda>pos. 0 < altitude pos)
      (map (\<lambda>k. get_solar_position calc (replace_hour date 0 + int k * minute_us)) [0..<1440])"
  shows "predict_sunlight_loss calc date None =
     Inr \<lparr>has_sunlight = (ps \<noteq> []),
          first_direct_sunlight = (if ps \<noteq> [] then Some (time (hd ps)) else None),
          sun_altitude_at_rise = (if ps \<noteq> [] then Some (altitude (hd ps)) else None),
          sun_azimuth_at_rise = (if ps \<noteq> [] then Some (azimuth (hd ps)) else None),
          last_direct_sunlight = (if ps \<noteq> [] then Some (time (last ps)) else None),
          sun_altitude_at_loss = (if ps \<noteq> [] then Some (altitude (last ps)) else None),
          sun_azimuth_at_loss = (if ps \<noteq> [] then Some (azimuth (last ps)) else None),
          terrain_obstruction = False\<rparr>"
  unfolding predict_sunlight_loss_def Let_def
  by (simp add: day_sweep_no_terrain assms [symmetric])

lemma predict_with_terrain:
  assumes "\<And>t. is_sun_blocked (load_from_file init_profile data) (fst (calc t)) (snd (calc t))
      = Inr (B t)"
    and "ps = filter (\<lambda>pos. \<not> B (time pos))
      (map (\<lambda>k. get_solar_position calc (replace_hour date 0 + int k * minute_us)) [0..<1440])"
  shows "predict_sunlight_loss calc date (Some data) =
     Inr \<lparr>has_sunlight = (ps \<noteq> []),
          first_direct_sunlight = (if ps \<noteq> [] then Some (time (hd ps)) else None),
          sun_altitude_at_rise = (if ps \<noteq> [] then Some (altitude (hd ps)) else None),
          sun_azimuth_at_rise = (if ps \<noteq> [] then Some (azimuth (hd ps)) else None),
          last_direct_sunlight = (if ps \<noteq> [] then Some (time (last ps)) else None),
          sun_altitude_at_loss = (if ps \<noteq> [] then Some (altitude (last ps)) else None),
          sun_azimuth_at_loss = (if ps \<noteq> [] then Some (azimuth (last ps)) else None),
          terrain_obstruction = True\<rparr>"
  unfolding predict_sunlight_loss_def Let_def
  by (simp add: day_sweep_terrain [where B = B, OF assms(1)] assms(2) [symmetric])

lemma half_day_sun_up:
  assumes "k < 1440"
  shows "0 < fst (half_day_sun (int k * minute_us)) \<longleftrightarrow> 360 \<le> k \<and> k \<le> 1080"
proof -
  have m: "(int k * minute_us) mod day_us = int k * minute_us"
    using assms by simp
  show ?thesis
    unfolding half_day_sun_def m by auto
qed

lemma half_day_sun_window:
  "filter (\<lambda>pos. 0 < altitude pos)
     (map (\<lambda>k. get_solar_position half_day_sun (int k * minute_us)) [0..<1440]) =
   map (\<lambda>k. get_solar_position half_day_sun (int k * minute_us)) [360..<1081]"
proof -
  have "filter ((\<lambda>pos. 0 < altitude pos) \<circ> (\<lambda>k. get_solar_position half_day_sun (int k * minute_us)))
          [0..<1440] = filter (\<lambda>k. 360 \<le> k \<and> k \<le> 1080) [0..<1440]"
    by (rule filter_cong) (simp_all add: half_day_sun_up get_solar_position_def)
  moreover have "filter (\<lambda>k. 360 \<le> k \<and> k \<le> 1080) [0..<1440] = [360..<1081]"
    using filter_upt_interval [of 360 1080 1440] by simp
  ultimately show ?thesis
    unfolding filter_map by (simp only:)
qed

lemma half_day_horizon:
  "predict_sunlight_loss half_day_sun 0 None =
     Inr \<lparr>has_sunlight = True,
          first_direct_sunlight = Some (6 * hour_us),
          sun_altitude_at_rise = Some 10, sun_azimuth_at_rise = Some 180,
          last_direct_sunlight = Some (18 * hour_us),
          sun_altitude_at_loss = Some 10, sun_azimuth_at_loss = Some 180,
          terrain_obstruction = False\<rparr>"
proof -
  define f where "f = (\<lambda>k. get_solar_position half_day_sun (int k * minute_us))"
  have f_lo: "f 360 = \<lparr>altitude = 10, azimuth = 180, time = 6 * hour_us\<rparr>"
    and f_hi: "f 1080 = \<lparr>altitude = 10, azimuth = 180, time = 18 * hour_us\<rparr>"
    by (simp_all add: f_def get_solar_position_def half_day_sun_def)
  have ps: "map f [360..<1081] = filter (\<lambda>pos. 0 < altitude pos)
      (map (\<lambda>k. get_solar_position half_day_sun (replace_hour 0 0 + int k * minute_us)) [0..<1440])"
    unfolding f_def half_day_sun_window [symmetric] by (simp add: replace_hour_def)
  have ends: "map f [360..<1081] \<noteq> []" "hd (map f [360..<1081]) = f 360"
    "last (map f [360..<1081]) = f 1080"
    using map_upt_ends [of 360 1081 f] by simp_all
  show ?thesis
    unfolding predict_no_terrain [OF ps] ends f_lo f_hi by simp
qed

lemma half_day_terrain:
  "predict_sunlight_loss half_day_sun 0
       (Some \<lparr>json_elevations = Some [(0, - 10)], json_reference_elevation = None\<rparr>) =
     Inr \<lparr>has_sunlight = True,
          first_direct_sunlight = Some 0,
          sun_altitude_at_rise = Some (- 5), sun_azimuth_at_rise = Some 180,
          last_direct_sunlight = Some (1439 * minute_us),
          sun_altitude_at_loss = Some (- 5), sun_azimuth_at_loss = Some 180,
          terrain_obstruction = True\<rparr>"
proof -
  define f where "f = (\<lambda>k. get_solar_position half_day_sun (int k * minute_us))"
  define data where
    "data = \<lparr>json_elevations = Some [(0, - 10)], json_reference_elevation = None\<rparr>"
  have f_0: "f 0 = \<lparr>altitude = - 5, azimuth = 180, time = 0\<rparr>"
    and f_end: "f 1439 = \<lparr>altitude = - 5, azimuth = 180, time = 1439 * minute_us\<rparr>"
    by (simp_all add: f_def get_solar_position_def half_day_sun_def)
  have el: "elevations (load_from_file init_profile data) = [(0, - 10)]"
    by (simp add: data_def load_from_file_def load_from_dict_def dict_comprehension_def)
  have blocked: "is_sun_blocked (load_from_file init_profile data)
      (fst (half_day_sun t)) (snd (half_day_sun t)) = Inr (fst (half_day_sun t) \<le> - 10)" for t
    by (rule is_sun_blocked_single [OF el])
  have "filter (\<lambda>pos. \<not> fst (half_day_sun (time pos)) \<le> - 10) (map f [0..<1440])
      = map f [0..<1440]"
    unfolding filter_id_conv by (simp add: half_day_sun_def)
  then have ps: "map f [0..<1440] = filter (\<lambda>pos. \<not> fst (half_day_sun (time pos)) \<le> - 10)
      (map (\<lambda>k. get_solar_position half_day_sun (replace_hour 0 0 + int k * minute_us)) [0..<1440])"
    unfolding f_def by (simp add: replace_hour_def)
  have ends: "map f [0..<1440] \<noteq> []" "hd (map f [0..<1440]) = f 0"
    "last (map f [0..<1440]) = f 1439"
    using map_upt_ends [of 0 1440 f] by simp_all
  show ?thesis
    unfolding data_def [symmetric]
      predict_with_terrain [of data half_day_sun "\<lambda>t. fst (half_day_sun t) \<le> - 10", OF blocked ps]
      ends f_0 f_end
    by simp
qed

lemma bracket_not_refined:
  "time_after - time_before \<le> 1 * second_us \<Longrightarrow>
   binary_search_altitude_crossing calc time_before time_after target_altitude = time_after"
  by (subst binary_search_altitude_crossing.simps) simp

text \<open>
  The binary search on a bracket in the order it expects: from an instant where the sun
  is above the target altitude to a later one where it is not, the result is an instant
  at or below the target, at most one second after an instant above it.
\<close>

lemma bisection_bracket:
  assumes "time_before < time_after"
    and "fst (calc time_before) > target_altitude"
    and "fst (calc time_after) \<le> target_altitude"
  shows "\<exists>b. time_before \<le> b
       \<and> b < binary_search_altitude_crossing calc time_before time_after target_altitude
       \<and> binary_search_altitude_crossing calc time_before time_after target_altitude \<le> time_after
       \<and> binary_search_altitude_crossing calc time_before time_after target_altitude - b \<le> 1 * second_us
       \<and> fst (calc b) > target_altitude
       \<and> fst (calc (binary_search_altitude_crossing calc time_before time_after target_altitude))
           \<le> target_altitude"
  using assms
proof (induction calc time_before time_after target_altitude
    rule: binary_search_altitude_crossing.induct)
  case (1 calc time_before time_after target_altitude)
  define mid where "mid = time_before + timedelta_half (time_after - time_before)"
  show ?case
  proof (cases "time_after - time_before > 1 * second_us")
    case False
    then have "binary_search_altitude_crossing calc time_before time_after target_altitude
        = time_after"
      by (subst binary_search_altitude_crossing.simps) simp
    with False "1.prems" show ?thesis
      by (intro exI [of _ time_before]) simp
  next
    case True
    then have h: "0 < timedelta_half (time_after - time_before)"
      "timedelta_half (time_after - time_before) < time_after - time_before"
      unfolding timedelta_half_def Let_def by presburger+
    then have m: "time_before < mid" "mid < time_after"
      by (simp_all add: mid_def)
    show ?thesis
    proof (cases "fst (calc mid) > target_altitude")
      case up: True
      have e: "binary_search_altitude_crossing calc time_before time_after target_altitude
          = binary_search_altitude_crossing calc mid time_after target_altitude"
        using True up
        by (subst binary_search_altitude_crossing.simps)
          (simp add: Let_def mid_def get_solar_position_def)
      have "\<exists>b. mid \<le> b
         \<and> b < binary_search_altitude_crossing calc mid time_after target_altitude
         \<and> binary_search_altitude_crossing calc mid time_after target_altitude \<le> time_after
         \<and> binary_search_altitude_crossing calc mid time_after target_altitude - b \<le> 1 * second_us
         \<and> fst (calc b) > target_altitude
         \<and> fst (calc (binary_search_altitude_crossing calc mid time_after target_altitude))
             \<le> target_altitude"
        using True up m "1.prems"
        by (intro "1.IH"(1) [where x = mid and xa = "fst (calc mid)"])
          (simp_all add: mid_def get_solar_position_def)
      then show ?thesis
        unfolding e using m(1) by (meson less_imp_le order_trans)
    next
      case down: False
      have e: "binary_search_altitude_crossing calc time_before time_after target_altitude
          = binary_search_altitude_crossing calc time_before mid target_altitude"
        using True down
        by (subst binary_search_altitude_crossing.simps)
          (simp add: Let_def mid_def get_solar_position_def)
      have "\<exists>b. time_before \<le> b
         \<and> b < binary_search_altitude_crossing calc time_before mid target_altitude
         \<and> binary_search_altitude_crossing calc time_before mid target_altitude \<le> mid
         \<and> binary_search_altitude_crossing calc time_before mid target_altitude - b \<le> 1 * second_us
         \<and> fst (calc b) > target_altitude
         \<and> fst (calc (binary_search_altitude_crossing calc time_before mid target_altitude))
             \<le> target_altitude"
        using True down m "1.prems"
        by (intro "1.IH"(2) [where x = mid and xa = "fst (calc mid)"])
          (simp_all add: mid_def get_solar_position_def)
      then show ?thesis
        unfolding e using m(2) by (meson less_imp_le order_trans)
    qed
  qed
qed

subsection \<open>The backward search does not refine its bracket\<close>

text \<open>
  Claim C3 says that every crossing search, forward and backward alike, shrinks its
  bracket to the tolerance of one second and returns an instant within that tolerance of
  the true crossing. The backward (dawn) search does not. With \<open>step = -1\<close> the scan calls
  the binary search with \<open>time_before = current_time + 1 hour\<close> and
  \<open>time_after = current_time\<close>; the width \<open>time_after - time_before\<close> is minus one
  hour, the loop condition is false at once, and the coarse sample \<open>current_time\<close> is
  returned. For \<open>dawn_sun\<close>, whose altitude crosses -6 degrees at 11:30 of day 0, the
  civil dawn computed for day 1 is 11:00 of day 0, 1800 seconds from the crossing. (On a
  bracket in the expected order the refinement does work: \<open>bisection_bracket\<close>.)
\<close>

theorem backward_search_returns_coarse_sample:
  "civil_dawn (get_civil_twilight_times dawn_sun day_us) = Some (11 * hour_us)
   \<and> altitude (get_solar_position dawn_sun 41400000000) = - 6
   \<and> 41400000000 - 11 * hour_us = 1800 * second_us"
  apply (simp add: get_civil_twilight_times_def find_altitude_crossing_def replace_hour_def
      get_solar_position_def dawn_sun_def Let_def)
  apply (subst altitude_scan.simps)
  apply (simp add: Let_def get_solar_position_def dawn_sun_def bracket_not_refined)
  done

subsection \<open>Terrain can lengthen the reported window\<close>

text \<open>
  Claim C2 says that a non-empty terrain profile never makes the sunlight window longer
  than the horizon-only window. With a terrain file the sweep keeps every position that
  the terrain does not block and never tests \<open>altitude > 0\<close>; an obstruction angle below
  zero therefore lets positions below the horizon through. For \<open>half_day_sun\<close> the
  horizon-only window runs from 06:00 to 18:00 (720 minutes); with the one-sample profile
  \<open>{0: -10}\<close> the window runs from 00:00 to 23:59 (1439 minutes).
\<close>

theorem terrain_window_exceeds_horizon_window:
  "predict_sunlight_loss half_day_sun 0 None =
     Inr \<lparr>has_sunlight = True,
          first_direct_sunlight = Some (6 * hour_us),
          sun_altitude_at_rise = Some 10, sun_azimuth_at_rise = Some 180,
          last_direct_sunlight = Some (18 * hour_us),
          sun_altitude_at_loss = Some 10, sun_azimuth_at_loss = Some 180,
          terrain_obstruction = False\<rparr>
   \<and> predict_sunlight_loss half_day_sun 0
       (Some \<lparr>json_elevations = Some [(0, - 10)], json_reference_elevation = None\<rparr>) =
     Inr \<lparr>has_sunlight = True,
          first_direct_sunlight = Some 0,
          sun_altitude_at_rise = Some (- 5), sun_azimuth_at_rise = Some 180,
          last_direct_sunlight = Some (1439 * minute_us),
          sun_altitude_at_loss = Some (- 5), sun_azimuth_at_loss = Some 180,
          terrain_obstruction = True\<rparr>
   \<and> map_sum id window_duration (predict_sunlight_loss half_day_sun 0 None)
       = Inr (Some (720 * minute_us))
   \<and> map_sum id window_duration (predict_sunlight_loss half_day_sun 0
       (Some \<lparr>json_elevations = Some [(0, - 10)], json_reference_elevation = None\<rparr>))
       = Inr (Some (1439 * minute_us))"
  unfolding half_day_horizon half_day_terrain by (simp add: window_duration_def)

subsection \<open>What the scans detect\<close>

text \<open>
  Claim C9, as amended: the twilight search (\<open>_find_altitude_crossing\<close>) detects a
  crossing exactly when some pair of consecutive hourly samples reached within its scan
  bound has \<open>diff_prev * diff_curr \<le> 0\<close>; the horizon search (\<open>find_sunset_time\<close>),
  which scans forward minute by minute from 12:00 and stops at 23:00 of the same day,
  detects a crossing exactly when some pair of consecutive samples of that scan has a
  previous altitude strictly above zero and a current altitude at or below zero.
\<close>

theorem crossing_detection_conditions:
  "(find_altitude_crossing calc dt target_altitude search_forward \<noteq> None \<longleftrightarrow>
      (\<exists>k. (\<forall>j<k. \<bar>timedelta_days (replace_hour dt 12
                  + (if search_forward then 1 else - 1) * int (Suc j) * hour_us - dt)\<bar> \<le> 1)
         \<and> (fst (calc (replace_hour dt 12 + (if search_forward then 1 else - 1) * int k * hour_us))
               - target_altitude)
           * (fst (calc (replace_hour dt 12
                  + (if search_forward then 1 else - 1) * int (Suc k) * hour_us))
               - target_altitude) \<le> 0))
   \<and> (find_sunset_time calc dt \<noteq> None \<longleftrightarrow>
      (\<exists>k<660. 0 < fst (calc (replace_hour dt 12 + int k * minute_us))
              \<and> fst (calc (replace_hour dt 12 + int (Suc k) * minute_us)) \<le> 0))"
  unfolding find_altitude_crossing_None_iff find_sunset_time_None_iff
  by (auto simp: not_less not_le)

text \<open>
  Witness for claim C9: for \<open>falling_sun\<close> the twilight search detects the pair
  15:00, 16:00 and the horizon search detects the pair 15:59, 16:00.
\<close>

theorem crossing_detection_conditions_witness:
  "find_altitude_crossing falling_sun 0 (- 6) True \<noteq> None
   \<and> find_sunset_time falling_sun 0 \<noteq> None"
proof -
  have a: "\<exists>k. (\<forall>j<k. \<bar>timedelta_days (replace_hour 0 12
                  + (if True then 1 else - 1) * int (Suc j) * hour_us - 0)\<bar> \<le> 1)
         \<and> (fst (falling_sun (replace_hour 0 12 + (if True then 1 else - 1) * int k * hour_us))
               - (- 6))
           * (fst (falling_sun (replace_hour 0 12
                  + (if True then 1 else - 1) * int (Suc k) * hour_us))
               - (- 6)) \<le> 0"
  proof (intro exI [of _ 3] conjI allI impI)
    fix j :: nat assume "j < 3"
    then have "0 \<le> 12 * hour_us + int (Suc j) * hour_us"
      "12 * hour_us + int (Suc j) * hour_us < day_us" by simp_all
    then have "(12 * hour_us + int (Suc j) * hour_us) div day_us = 0"
      by (rule div_pos_pos_trivial)
    then show "\<bar>timedelta_days (replace_hour 0 12
        + (if True then 1 else - 1) * int (Suc j) * hour_us - 0)\<bar> \<le> 1"
      by (simp add: timedelta_days_def replace_hour_def)
  next
    show "(fst (falling_sun (replace_hour 0 12 + (if True then 1 else - 1) * int 3 * hour_us))
               - (- 6))
           * (fst (falling_sun (replace_hour 0 12
                  + (if True then 1 else - 1) * int (Suc 3) * hour_us))
               - (- 6)) \<le> 0"
      by (simp add: falling_sun_def replace_hour_def)
  qed
  have b: "\<exists>k<660. 0 < fst (falling_sun (replace_hour 0 12 + int k * minute_us))
              \<and> fst (falling_sun (replace_hour 0 12 + int (Suc k) * minute_us)) \<le> 0"
    by (rule exI [of _ 239]) (simp add: falling_sun_def replace_hour_def)
  from a b show ?thesis
    using crossing_detection_conditions [of falling_sun 0 "- 6" True] by blast
qed

text \<open>
  Counterexample to claim C9 as stated, in the three ways the horizon search departs
  from it. For \<open>grazing_sun\<close> the first pair of samples, 12:00 and 12:01, has
  \<open>diff_prev = 0\<close> and a product of zero; for \<open>rising_sun\<close> the pair 12:59, 13:00 has a
  negative product; for \<open>late_sun\<close> the pair 23:29, 23:30 lies in the same calendar day
  and descends through zero, after the scan has stopped at 23:00. In each case the search
  detects no crossing and returns \<open>None\<close>.
\<close>

theorem horizon_search_misses_crossings_counterexample:
  "(fst (grazing_sun (replace_hour 0 12)) - 0 = 0
    \<and> (fst (grazing_sun (replace_hour 0 12)) - 0)
        * (fst (grazing_sun (replace_hour 0 12 + 1 * minute_us)) - 0) \<le> 0
    \<and> find_sunset_time grazing_sun 0 = None)
   \<and> ((fst (rising_sun (replace_hour 0 12 + 59 * minute_us)) - 0)
        * (fst (rising_sun (replace_hour 0 12 + 60 * minute_us)) - 0) \<le> 0
    \<and> find_sunset_time rising_sun 0 = None)
   \<and> (0 < fst (late_sun (replace_hour 0 12 + 689 * minute_us))
    \<and> fst (late_sun (replace_hour 0 12 + 690 * minute_us)) \<le> 0
    \<and> (fst (late_sun (replace_hour 0 12 + 689 * minute_us)) - 0)
        * (fst (late_sun (replace_hour 0 12 + 690 * minute_us)) - 0) \<le> 0
    \<and> date_of (replace_hour 0 12 + 690 * minute_us) = date_of 0
    \<and> find_sunset_time late_sun 0 = None)"
proof -
  have m: "(12 * hour_us + int k * minute_us) mod day_us = 12 * hour_us + int k * minute_us"
    if "k \<le> 660" for k
    using that by simp
  have g: "find_sunset_time grazing_sun 0 = None"
    unfolding find_sunset_time_None_iff by (simp add: grazing_sun_def)
  have r: "find_sunset_time rising_sun 0 = None"
    unfolding find_sunset_time_None_iff
  proof (intro allI impI)
    fix k :: nat assume k: "k < 660"
    have "(12 * hour_us + int (Suc k) * minute_us) mod day_us
        = 12 * hour_us + int (Suc k) * minute_us"
      using k by (intro m) simp
    moreover have "(12 * hour_us + int k * minute_us) mod day_us = 12 * hour_us + int k * minute_us"
      using k by (intro m) simp
    ultimately show "\<not> (0 < fst (rising_sun (replace_hour 0 12 + int k * minute_us))
        \<and> fst (rising_sun (replace_hour 0 12 + int (Suc k) * minute_us)) \<le> 0)"
      by (simp add: rising_sun_def replace_hour_def)
  qed
  have l: "find_sunset_time late_sun 0 = None"
    unfolding find_sunset_time_None_iff
  proof (intro allI impI)
    fix k :: nat assume k: "k < 660"
    have "(12 * hour_us + int (Suc k) * minute_us) mod day_us
        = 12 * hour_us + int (Suc k) * minute_us"
      using k by (intro m) simp
    then show "\<not> (0 < fst (late_sun (replace_hour 0 12 + int k * minute_us))
        \<and> fst (late_sun (replace_hour 0 12 + int (Suc k) * minute_us)) \<le> 0)"
      using k by (simp add: late_sun_def replace_hour_def)
  qed
  show ?thesis
    unfolding g r l
    by (simp add: grazing_sun_def rising_sun_def late_sun_def replace_hour_def date_of_def)
qed

subsection \<open>Absent crossings and days without sunlight\<close>

text \<open>
  Claim C8, as amended: a crossing search that detects nothing within its scan bound
  returns \<open>None\<close>, a value and not an exception (the twilight search when every pair of
  consecutive samples within the bound has a positive product; the horizon search when
  no pair of consecutive samples descends through zero). The daily prediction does not
  call the crossing searches; run without a terrain file on a day none of whose 1440
  minute samples has an altitude above zero, it returns \<open>has_sunlight = False\<close> with all
  time, altitude and azimuth entries \<open>None\<close>.
\<close>

theorem no_crossing_is_absent:
  "((\<forall>k. (\<forall>j<k. \<bar>timedelta_days (replace_hour dt 12
                  + (if search_forward then 1 else - 1) * int (Suc j) * hour_us - dt)\<bar> \<le> 1) \<longrightarrow>
          0 < (fst (calc (replace_hour dt 12 + (if search_forward then 1 else - 1) * int k * hour_us))
                 - target_altitude)
            * (fst (calc (replace_hour dt 12
                    + (if search_forward then 1 else - 1) * int (Suc k) * hour_us))
                 - target_altitude))
      \<longrightarrow> find_altitude_crossing calc dt target_altitude search_forward = None)
   \<and> ((\<forall>k<660. \<not> (0 < fst (calc (replace_hour dt 12 + int k * minute_us))
                  \<and> fst (calc (replace_hour dt 12 + int (Suc k) * minute_us)) \<le> 0))
      \<longrightarrow> find_sunset_time calc dt = None)
   \<and> ((\<forall>k<1440. fst (calc (replace_hour dt 0 + int k * minute_us)) \<le> 0)
      \<longrightarrow> predict_sunlight_loss calc dt None =
         Inr \<lparr>has_sunlight = False,
              first_direct_sunlight = None,
              sun_altitude_at_rise = None, sun_azimuth_at_rise = None,
              last_direct_sunlight = None,
              sun_altitude_at_loss = None, sun_azimuth_at_loss = None,
              terrain_obstruction = False\<rparr>)"
proof (intro conjI impI)
  assume "\<forall>k. (\<forall>j<k. \<bar>timedelta_days (replace_hour dt 12
                  + (if search_forward then 1 else - 1) * int (Suc j) * hour_us - dt)\<bar> \<le> 1) \<longrightarrow>
          0 < (fst (calc (replace_hour dt 12 + (if search_forward then 1 else - 1) * int k * hour_us))
                 - target_altitude)
            * (fst (calc (replace_hour dt 12
                    + (if search_forward then 1 else - 1) * int (Suc k) * hour_us))
                 - target_altitude)"
  then show "find_altitude_crossing calc dt target_altitude search_forward = None"
    unfolding find_altitude_crossing_None_iff .
next
  assume "\<forall>k<660. \<not> (0 < fst (calc (replace_hour dt 12 + int k * minute_us))
                  \<and> fst (calc (replace_hour dt 12 + int (Suc k) * minute_us)) \<le> 0)"
  then show "find_sunset_time calc dt = None"
    unfolding find_sunset_time_None_iff .
next
  assume dark: "\<forall>k<1440. fst (calc (replace_hour dt 0 + int k * minute_us)) \<le> 0"
  have "filter (\<lambda>pos. 0 < altitude pos)
      (map (\<lambda>k. get_solar_position calc (replace_hour dt 0 + int k * minute_us)) [0..<1440]) = []"
    unfolding filter_empty_conv using dark by (auto simp: get_solar_position_def not_less)
  then have ps: "[] = filter (\<lambda>pos. 0 < altitude pos)
      (map (\<lambda>k. get_solar_position calc (replace_hour dt 0 + int k * minute_us)) [0..<1440])"
    by simp
  show "predict_sunlight_loss calc dt None =
         Inr \<lparr>has_sunlight = False,
              first_direct_sunlight = None,
              sun_altitude_at_rise = None, sun_azimuth_at_rise = None,
              last_direct_sunlight = None,
              sun_altitude_at_loss = None, sun_azimuth_at_loss = None,
              terrain_obstruction = False\<rparr>"
    unfolding predict_no_terrain [OF ps] by simp
qed

text \<open>
  Witness for claim C8: \<open>polar_night_sun\<close> satisfies the three hypotheses.
\<close>

theorem no_crossing_is_absent_witness:
  "find_altitude_crossing polar_night_sun 0 (- 6) True = None
   \<and> find_sunset_time polar_night_sun 0 = None
   \<and> predict_sunlight_loss polar_night_sun 0 None =
         Inr \<lparr>has_sunlight = False,
              first_direct_sunlight = None,
              sun_altitude_at_rise = None, sun_azimuth_at_rise = None,
              last_direct_sunlight = None,
              sun_altitude_at_loss = None, sun_azimuth_at_loss = None,
              terrain_obstruction = False\<rparr>"
  using no_crossing_is_absent [where calc = polar_night_sun and dt = 0
      and target_altitude = "- 6" and search_forward = True]
  by (simp add: polar_night_sun_def)

text \<open>
  Counterexample to claim C8 as stated: for \<open>polar_day_sun\<close> no crossing search finds
  a sign change (the horizon search, the dusk search and the dawn search all return
  \<open>None\<close>), yet the prediction reports \<open>has_sunlight = True\<close> with all time entries
  present.
\<close>

theorem absent_crossing_reported_sunlight_counterexample:
  "find_sunset_time polar_day_sun 0 = None
   \<and> find_altitude_crossing polar_day_sun 0 (- 6) True = None
   \<and> find_altitude_crossing polar_day_sun (0 - 1 * day_us) (- 6) False = None
   \<and> predict_sunlight_loss polar_day_sun 0 None =
     Inr \<lparr>has_sunlight = True,
          first_direct_sunlight = Some 0,
          sun_altitude_at_rise = Some 10, sun_azimuth_at_rise = Some 180,
          last_direct_sunlight = Some (1439 * minute_us),
          sun_altitude_at_loss = Some 10, sun_azimuth_at_loss = Some 180,
          terrain_obstruction = False\<rparr>"
proof -
  define f where "f = (\<lambda>k. get_solar_position polar_day_sun (int k * minute_us))"
  have s: "find_sunset_time polar_day_sun 0 = None"
    unfolding find_sunset_time_None_iff by (simp add: polar_day_sun_def)
  have d: "find_altitude_crossing polar_day_sun 0 (- 6) True = None"
    unfolding find_altitude_crossing_None_iff by (simp add: polar_day_sun_def)
  have m: "find_altitude_crossing polar_day_sun (0 - 1 * day_us) (- 6) False = None"
    unfolding find_altitude_crossing_None_iff by (simp add: polar_day_sun_def)
  have "filter (\<lambda>pos. 0 < altitude pos) (map f [0..<1440]) = map f [0..<1440]"
    unfolding filter_id_conv by (simp add: f_def get_solar_position_def polar_day_sun_def)
  then have ps: "map f [0..<1440] = filter (\<lambda>pos. 0 < altitude pos)
      (map (\<lambda>k. get_solar_position polar_day_sun (replace_hour 0 0 + int k * minute_us)) [0..<1440])"
    unfolding f_def by (simp add: replace_hour_def)
  have ends: "map f [0..<1440] \<noteq> []" "hd (map f [0..<1440]) = f 0"
    "last (map f [0..<1440]) = f 1439"
    using map_upt_ends [of 0 1440 f] by simp_all
  have p: "predict_sunlight_loss polar_day_sun 0 None =
     Inr \<lparr>has_sunlight = True,
          first_direct_sunlight = Some 0,
          sun_altitude_at_rise = Some 10, sun_azimuth_at_rise = Some 180,
          last_direct_sunlight = Some (1439 * minute_us),
          sun_altitude_at_loss = Some 10, sun_azimuth_at_loss = Some 180,
          terrain_obstruction = False\<rparr>"
    unfolding predict_no_terrain [OF ps] ends
    by (simp add: f_def get_solar_position_def polar_day_sun_def)
  from s d m p show ?thesis by (simp only: simp_thms)
qed

end
